theory Spec2Isabelle
  imports Complex_Main "HOL-Library.Multiset" "HOL-Library.Word"
begin

section \<open>The grants pipeline of scripts/build-complete-grants-dataset.ts\<close>

text \<open>
  The development embeds the batch pipeline of the repository: the archive extractor,
  the filing parsers, the curated-list filter, the dataset builder with its consolidation
  pass, the dataset serializer and the two network builders. Every definition follows the
  TypeScript function of the same name. A JavaScript string is the list of its UTF-16 code
  units, a JavaScript number is a value of the type \<open>number\<close> below, an exception is the
  \<open>Inl\<close> branch of a sum, \<open>null\<close> and \<open>undefined\<close> are \<open>None\<close>.
\<close>

subsection \<open>JavaScript numbers\<close>

text \<open>
  A JavaScript number is NaN, an infinity or a finite double. A finite double is kept as
  the real number it denotes; negative zero is identified with zero. The comparisons follow
  IEEE 754 on the special values (every comparison with NaN is false).
\<close>

datatype number = NaN | NegInf | Num real | PosInf

fun num_less :: "number \<Rightarrow> number \<Rightarrow> bool" where
  "num_less NaN _ = False"
| "num_less _ NaN = False"
| "num_less PosInf _ = False"
| "num_less _ NegInf = False"
| "num_less NegInf _ = True"
| "num_less _ PosInf = True"
| "num_less (Num a) (Num b) = (a < b)"

fun num_le :: "number \<Rightarrow> number \<Rightarrow> bool" where
  "num_le NaN _ = False"
| "num_le _ NaN = False"
| "num_le NegInf _ = True"
| "num_le _ PosInf = True"
| "num_le PosInf _ = False"
| "num_le _ NegInf = False"
| "num_le (Num a) (Num b) = (a \<le> b)"

text \<open>
  \<open>toDouble\<close> is the rounding the language applies to the exact value of a numeric
  literal and to the exact result of an arithmetic operation: to the nearest double, a tie
  to the double with the even significand, and to an infinity from \<open>2^1024\<close> on. For a
  positive \<open>x\<close>, \<open>binaryExponent x\<close> is the exponent \<open>e\<close> of the binade of \<open>x\<close>
  (\<open>2^e \<le> x < 2^(e+1)\<close>), kept between \<open>-1022\<close> (below, the doubles are subnormal) and
  \<open>1023\<close>; the doubles of that binade are the multiples of \<open>2^(e-52)\<close>.
\<close>

definition roundTiesToEven :: "real \<Rightarrow> int" where
  "roundTiesToEven x =
     (let f = \<lfloor>x\<rfloor>; d = x - of_int f
      in if d < 1 / 2 then f else if 1 / 2 < d then f + 1 else if even f then f else f + 1)"

function expUp :: "int \<Rightarrow> real \<Rightarrow> int" where
  "expUp e x = (if 1023 \<le> e \<or> x < 2 powi (e + 1) then e else expUp (e + 1) x)"
  by pat_completeness auto
termination
  by (relation "measure (\<lambda>(e, x). nat (1023 - e))") auto

function expDown :: "int \<Rightarrow> real \<Rightarrow> int" where
  "expDown e x = (if e \<le> - 1022 \<or> 2 powi e \<le> x then e else expDown (e - 1) x)"
  by pat_completeness auto
termination
  by (relation "measure (\<lambda>(e, x). nat (e + 1022))") auto

declare expUp.simps [simp del] expDown.simps [simp del]

definition binaryExponent :: "real \<Rightarrow> int" where
  "binaryExponent x = (if 1 \<le> x then expUp 0 x else expDown (- 1) x)"

definition toDouble :: "real \<Rightarrow> number" where
  "toDouble x =
     (if x = 0 then Num 0
      else
        let q = 2 powi (binaryExponent \<bar>x\<bar> - 52);
            r = of_int (roundTiesToEven (\<bar>x\<bar> / q)) * q
        in if 2 powi 1024 \<le> r then (if x < 0 then NegInf else PosInf)
           else Num (if x < 0 then - r else r))"

text \<open>The addition: IEEE 754 on the special values, and the rounded sum of two finite values.\<close>

fun num_add :: "number \<Rightarrow> number \<Rightarrow> number" where
  "num_add NaN _ = NaN"
| "num_add _ NaN = NaN"
| "num_add PosInf NegInf = NaN"
| "num_add NegInf PosInf = NaN"
| "num_add PosInf _ = PosInf"
| "num_add _ PosInf = PosInf"
| "num_add NegInf _ = NegInf"
| "num_add _ NegInf = NegInf"
| "num_add (Num a) (Num b) = toDouble (a + b)"

text \<open>Truthiness of a number: \<open>0\<close> and \<open>NaN\<close> are falsy.\<close>

definition num_truthy :: "number \<Rightarrow> bool" where
  "num_truthy n = (n \<noteq> NaN \<and> n \<noteq> Num 0)"

subsection \<open>JavaScript strings\<close>

text \<open>
  A string is the list of its UTF-16 code units. \<open>str\<close> and \<open>ch\<close> write a string and a
  code unit with the characters of a literal; these are below U+0100, where the code unit
  is the character code.
\<close>

type_synonym jstring = "16 word list"

abbreviation ch :: "char \<Rightarrow> 16 word" where
  "ch c \<equiv> of_char c"

abbreviation str :: "string \<Rightarrow> jstring" where
  "str s \<equiv> map of_char s"

text \<open>
  White space is what \<open>trim\<close>, the class \<open>\s\<close> of a regular expression and \<open>parseFloat\<close>
  take for white space, the code points WhiteSpace and LineTerminator of ECMAScript: tab,
  line feed, vertical tab, form feed, carriage return, space, no-break space, U+1680,
  U+2000 to U+200A, U+2028, U+2029, U+202F, U+205F, U+3000 and U+FEFF.
\<close>

definition is_space :: "16 word \<Rightarrow> bool" where
  "is_space c =
     (c \<in> set [0x0009, 0x000A, 0x000B, 0x000C, 0x000D, 0x0020, 0x00A0, 0x1680, 0x2028, 0x2029,
               0x202F, 0x205F, 0x3000, 0xFEFF]
      \<or> (0x2000 \<le> c \<and> c \<le> 0x200A))"

text \<open>The classes \<open>[0-9]\<close>, \<open>[a-z]\<close> and \<open>[A-Z]\<close>.\<close>

definition is_digit :: "16 word \<Rightarrow> bool" where
  "is_digit c = (ch CHR ''0'' \<le> c \<and> c \<le> ch CHR ''9'')"

definition is_lower :: "16 word \<Rightarrow> bool" where
  "is_lower c = (ch CHR ''a'' \<le> c \<and> c \<le> ch CHR ''z'')"

definition is_upper :: "16 word \<Rightarrow> bool" where
  "is_upper c = (ch CHR ''A'' \<le> c \<and> c \<le> ch CHR ''Z'')"

text \<open>
  \<open>String.prototype.toLowerCase\<close> and \<open>toUpperCase\<close> map a string by the case tables of
  the Unicode version of the host, and are not defined here. A function whose source calls
  one of them takes it as an argument, named \<open>toLowerCase\<close> or \<open>toUpperCase\<close> and put
  first, and every property below is proved for all functions in their place, so for
  those of every host. For a string \<open>s\<close> whose code units are all below U+0080,
  \<open>s.toLowerCase()\<close> is \<open>asciiLower s\<close> and \<open>s.toUpperCase()\<close> is \<open>asciiUpper s\<close>
  (a string with other code units is mapped by the tables, not by these two). The examples
  are made of strings below U+0080 and are evaluated with \<open>asciiLower\<close> and
  \<open>asciiUpper\<close>.
\<close>

definition asciiLower :: "jstring \<Rightarrow> jstring" where
  "asciiLower s = map (\<lambda>c. if is_upper c then c + 32 else c) s"

definition asciiUpper :: "jstring \<Rightarrow> jstring" where
  "asciiUpper s = map (\<lambda>c. if is_lower c then c - 32 else c) s"

definition trim :: "jstring \<Rightarrow> jstring" where
  "trim s = rev (dropWhile is_space (rev (dropWhile is_space s)))"

definition startsWith :: "jstring \<Rightarrow> jstring \<Rightarrow> bool" where
  "startsWith s p = (take (length p) s = p)"

text \<open>\<open>s.split(/\s+/)\<close>: the pieces between the maximal runs of white space.\<close>

function split_ws :: "jstring \<Rightarrow> jstring list" where
  "split_ws [] = [[]]"
| "split_ws (c # cs) =
     (if is_space c then [] # split_ws (dropWhile is_space cs)
      else (case split_ws cs of p # ps \<Rightarrow> (c # p) # ps | [] \<Rightarrow> [[c]]))"
  by pat_completeness auto
termination
  by (relation "measure length") (auto simp: length_dropWhile_le le_imp_less_Suc)

text \<open>The decimal digits of a natural number, as \<open>String(n)\<close> prints an integer.\<close>

fun decimal :: "nat \<Rightarrow> jstring" where
  "decimal n =
     (if n < 10 then [ch CHR ''0'' + of_nat n]
      else decimal (n div 10) @ [ch CHR ''0'' + of_nat (n mod 10)])"

declare decimal.simps [simp del]

definition digits_value :: "jstring \<Rightarrow> nat" where
  "digits_value ds = foldl (\<lambda>v c. 10 * v + (unat c - 48)) 0 ds"

text \<open>
  \<open>parseFloat\<close> (ECMAScript): leading white space is skipped and the longest prefix that
  is a decimal literal is read: an optional sign, then \<open>Infinity\<close>, or digits with an
  optional fraction and an optional complete exponent part; the rest of the string is
  ignored, and the result is NaN when there is no such prefix. The result is the double
  nearest to the exact value of the literal.
\<close>

definition exponent_part :: "jstring \<Rightarrow> int" where
  "exponent_part r =
     (case r of
        [] \<Rightarrow> 0
      | c # r1 \<Rightarrow>
          if c = ch CHR ''e'' \<or> c = ch CHR ''E'' then
            (case r1 of
               [] \<Rightarrow> 0
             | d # r2 \<Rightarrow>
                 if d = ch CHR ''-'' then
                   (if takeWhile is_digit r2 = [] then 0 else - int (digits_value (takeWhile is_digit r2)))
                 else if d = ch CHR ''+'' then int (digits_value (takeWhile is_digit r2))
                 else int (digits_value (takeWhile is_digit r1)))
          else 0)"

definition scale10 :: "real \<Rightarrow> int \<Rightarrow> real" where
  "scale10 m e = (if 0 \<le> e then m * 10 ^ nat e else m / 10 ^ nat (- e))"

definition parseUnsigned :: "bool \<Rightarrow> jstring \<Rightarrow> number" where
  "parseUnsigned neg u =
     (if take 8 u = str ''Infinity'' then (if neg then NegInf else PosInf)
      else
        let ip = takeWhile is_digit u;
            r1 = dropWhile is_digit u;
            fp = (case r1 of [] \<Rightarrow> [] | c # r \<Rightarrow> if c = ch CHR ''.'' then takeWhile is_digit r else []);
            r2 = (case r1 of [] \<Rightarrow> [] | c # r \<Rightarrow> if c = ch CHR ''.'' then dropWhile is_digit r else r1)
        in if ip = [] \<and> fp = [] then NaN
           else
             let m = real (digits_value ip) + real (digits_value fp) / 10 ^ length fp;
                 v = scale10 m (exponent_part r2)
             in toDouble (if neg then - v else v))"

definition parseFloat :: "jstring \<Rightarrow> number" where
  "parseFloat s =
     (case dropWhile is_space s of
        [] \<Rightarrow> NaN
      | c # r \<Rightarrow>
          if c = ch CHR ''-'' then parseUnsigned True r
          else if c = ch CHR ''+'' then parseUnsigned False r
          else parseUnsigned False (c # r))"

text \<open>
  \<open>parseInt(s, 10)\<close>: leading white space, an optional sign and the longest prefix of
  decimal digits; NaN when there is no digit, and otherwise the double nearest to the
  integer read.
\<close>

definition parseInt :: "jstring \<Rightarrow> number" where
  "parseInt s =
     (let t = dropWhile is_space s;
          neg = (case t of [] \<Rightarrow> False | c # _ \<Rightarrow> c = ch CHR ''-'');
          u = (case t of [] \<Rightarrow> [] | c # r \<Rightarrow> if c = ch CHR ''-'' \<or> c = ch CHR ''+'' then r else t);
          ds = takeWhile is_digit u
      in if ds = [] then NaN
         else toDouble (if neg then - real (digits_value ds) else real (digits_value ds)))"

subsection \<open>The archive extractor: extractZip\<close>

text \<open>
  \<open>extractZip\<close> creates the destination directory when it is missing, runs the system
  \<open>unzip\<close> through \<open>execFile\<close> and settles its promise in the callback. One run is
  described by what the environment answers: whether \<open>fs.mkdirSync\<close> raised, the error
  object \<open>execFile\<close> hands to the callback (its \<open>code\<close> is the exit status of the process, a
  system error name such as ENOENT when the process could not be started, or absent), the
  text of stderr, and what \<open>fs.existsSync(dest)\<close> and \<open>fs.readdirSync(dest)\<close> answer
  inside the callback. The result is \<open>Inr ()\<close> when the promise resolves and
  \<open>Inl message\<close> when it rejects.
\<close>

datatype error_code = ExitStatus nat | ErrorName jstring | NoCode

record ExecError =
  code :: error_code
  message :: jstring

record UnzipRun =
  mkdir_error :: "jstring option"
  exec_error :: "ExecError option"
  stderr :: jstring
  dest_exists :: bool
  dest_entries :: "jstring list"

definition extractZip :: "UnzipRun \<Rightarrow> jstring + unit" where
  "extractZip run =
     (case mkdir_error run of
        Some m \<Rightarrow> Inl m
      | None \<Rightarrow>
         (case exec_error run of
            Some error \<Rightarrow>
              if code error = ExitStatus 1 \<or> code error = ExitStatus 3 then
                if dest_exists run \<and> length (dest_entries run) > 0 then Inr ()
                else Inl (str ''Unzip failed - no files extracted: '' @ message error @ [0x0A] @ stderr run)
              else Inl (str ''Unzip failed: '' @ message error @ [0x0A] @ stderr run)
          | None \<Rightarrow> Inr ()))"

subsection \<open>The filing parsers: processXmlFile and parseXML990File\<close>

text \<open>
  \<open>xml2js\<close> turns an element into an object from child names to arrays of children and a
  childless element into its text. \<open>get x k\<close> is the property access \<open>x.k\<close> (undefined on
  a text), and \<open>child v k\<close> is the chain \<open>v?.k?.[0]\<close>. Record fields carry the source's
  names after a short prefix for the record.
\<close>

text \<open>Exceptions are values of \<open>js_error\<close>.\<close>

datatype js_error = TypeError jstring | Error jstring

datatype xml = Text jstring | Elem "(jstring \<times> xml list) list"

definition get :: "xml \<Rightarrow> jstring \<Rightarrow> xml list option" where
  "get x k = (case x of Text _ \<Rightarrow> None | Elem kvs \<Rightarrow> map_of kvs k)"

definition getOpt :: "xml option \<Rightarrow> jstring \<Rightarrow> xml list option" where
  "getOpt v k = (case v of None \<Rightarrow> None | Some x \<Rightarrow> get x k)"

definition first :: "xml list option \<Rightarrow> xml option" where
  "first a = (case a of None \<Rightarrow> None | Some [] \<Rightarrow> None | Some (x # _) \<Rightarrow> Some x)"

definition child :: "xml option \<Rightarrow> jstring \<Rightarrow> xml option" where
  "child v k = first (getOpt v k)"

definition xml_truthy :: "xml option \<Rightarrow> bool" where
  "xml_truthy v = (case v of None \<Rightarrow> False | Some (Text s) \<Rightarrow> s \<noteq> [] | Some (Elem _) \<Rightarrow> True)"

text \<open>\<open>a || b\<close> on values that may be undefined, and \<open>a || d\<close> with a default that is defined.\<close>

definition orElse :: "xml option \<Rightarrow> xml option \<Rightarrow> xml option" where
  "orElse a b = (if xml_truthy a then a else b)"

definition orDefault :: "xml option \<Rightarrow> xml \<Rightarrow> xml" where
  "orDefault a d = (case a of None \<Rightarrow> d | Some v \<Rightarrow> if xml_truthy a then v else d)"

text \<open>The conversion to a string that a template and \<open>parseFloat\<close> apply to their argument.\<close>

definition toString :: "xml option \<Rightarrow> jstring" where
  "toString v =
     (case v of None \<Rightarrow> str ''undefined'' | Some (Text s) \<Rightarrow> s | Some (Elem _) \<Rightarrow> str ''[object Object]'')"

fun str_includes :: "jstring \<Rightarrow> jstring \<Rightarrow> bool" where
  "str_includes [] p = (p = [])"
| "str_includes (c # cs) p = (startsWith (c # cs) p \<or> str_includes cs p)"

record ParsedGrant =
  pg_recipientEIN :: xml
  pg_recipientName :: xml
  pg_amount :: number
  pg_year :: number
  pg_recipientCity :: xml
  pg_recipientState :: xml
  pg_recipientZip :: xml

record FilerMetadata =
  fm_address :: "xml option"
  fm_city :: "xml option"
  fm_state :: "xml option"
  fm_assets :: number
  fm_revenue :: number

record PFResult =
  pf_funderEIN :: "xml option"
  pf_funderName :: xml
  pf_grants :: "ParsedGrant list"
  pf_metadata :: FilerMetadata

record OrgResult =
  or_ein :: "xml option"
  or_name :: xml
  or_metadata :: FilerMetadata

text \<open>The fields read from one entry of the grants section.\<close>

definition recipientNameOf :: "xml \<Rightarrow> xml" where
  "recipientNameOf recipient =
     orDefault
       (orElse (child (child (Some recipient) (str ''RecipientBusinessName'')) (str ''BusinessNameLine1Txt''))
          (orElse (child (Some recipient) (str ''RecipientPersonNm''))
             (child (Some recipient) (str ''RecipientOrganizationName''))))
       (Text [])"

definition recipientAmountOf :: "xml \<Rightarrow> number" where
  "recipientAmountOf recipient =
     parseFloat (toString (Some
       (orDefault
          (orElse (child (Some recipient) (str ''Amt''))
             (orElse (child (Some recipient) (str ''Amount'')) (child (Some recipient) (str ''CashGrantAmt''))))
          (Text (str ''0'')))))"

definition recipientGrant :: "number \<Rightarrow> xml \<Rightarrow> ParsedGrant" where
  "recipientGrant taxYear recipient =
     (let usAddress = child (Some recipient) (str ''RecipientUSAddress'')
      in \<lparr>pg_recipientEIN = orDefault (child (Some recipient) (str ''RecipientEIN'')) (Text []),
          pg_recipientName = recipientNameOf recipient,
          pg_amount = recipientAmountOf recipient,
          pg_year = taxYear,
          pg_recipientCity = orDefault (child usAddress (str ''CityNm'')) (Text []),
          pg_recipientState = orDefault (child usAddress (str ''StateAbbreviationCd'')) (Text []),
          pg_recipientZip = orDefault (child usAddress (str ''ZIPCd'')) (Text [])\<rparr>)"

text \<open>
  The loop \<open>for (const recipient of grantSections)\<close>: an entry is pushed when
  \<open>recipientName && amount > 0\<close>.
\<close>

fun grantsLoop :: "number \<Rightarrow> xml list \<Rightarrow> ParsedGrant list \<Rightarrow> ParsedGrant list" where
  "grantsLoop taxYear [] grants = grants"
| "grantsLoop taxYear (recipient # rest) grants =
     (if xml_truthy (Some (recipientNameOf recipient)) \<and> num_less (Num 0) (recipientAmountOf recipient)
      then grantsLoop taxYear rest (grants @ [recipientGrant taxYear recipient])
      else grantsLoop taxYear rest grants)"

text \<open>
  The environment of a parser: \<open>readFileSync\<close> answers the text of a file or raises, and
  \<open>parseStringPromise\<close> answers the parsed document (the name of the root element with the
  root object; \<open>null\<close> is \<open>None\<close>) or rejects. \<open>processXmlFile_try\<close> is the body of the
  \<open>try\<close> block, with \<open>Inl\<close> for an exception raised inside it; \<open>processXmlFile\<close> adds the
  \<open>catch\<close> clause, which returns \<open>null\<close>.
\<close>

type_synonym document = "(jstring \<times> xml) option"

definition dataReturn :: "document \<Rightarrow> js_error + xml option" where
  "dataReturn data =
     (case data of
        None \<Rightarrow> Inl (TypeError (str ''Cannot read properties of null''))
      | Some (rootName, r) \<Rightarrow> Inr (if rootName = str ''Return'' then Some r else None))"

text \<open>
  The part of \<open>processXmlFile\<close> after the check \<open>!root || !header || !root.IRS990PF\<close>:
  the record built from the header and the return data (\<open>root\<close> in the source).
\<close>

definition grantSectionsOf :: "xml option \<Rightarrow> xml list" where
  "grantSectionsOf irs990pf =
     (let supplementaryInfo = child irs990pf (str ''SupplementaryInformationGrp'')
      in case getOpt supplementaryInfo (str ''GrantOrContributionPdDurYrGrp'') of
           Some a \<Rightarrow> a
         | None \<Rightarrow>
             (case getOpt irs990pf (str ''GrantOrContributionPdDurYrGrp'') of
                Some a \<Rightarrow> a
              | None \<Rightarrow>
                  (case getOpt irs990pf (str ''GrantOrContribPaidDuringYear'') of
                     Some a \<Rightarrow> a
                   | None \<Rightarrow> [])))"

definition pfResultOf :: "xml option \<Rightarrow> xml option \<Rightarrow> nat \<Rightarrow> PFResult" where
  "pfResultOf returnData header year =
     (let filer = child header (str ''Filer'');
          funderEIN = child filer (str ''EIN'');
          funderName =
            orDefault (child (child filer (str ''BusinessName'')) (str ''BusinessNameLine1Txt''))
              (Text (str ''Foundation '' @ toString funderEIN));
          taxYear = parseInt (toString (Some (orDefault (child header (str ''TaxYr'')) (Text (decimal year)))));
          usAddress = child filer (str ''USAddress'');
          irs990pf = child returnData (str ''IRS990PF'');
          balanceSheet = child irs990pf (str ''Form990PFBalanceSheetsGrp'');
          revenueExpenses = child irs990pf (str ''AnalysisOfRevenueAndExpenses'');
          metadata =
            \<lparr>fm_address = child usAddress (str ''AddressLine1Txt''),
             fm_city = child usAddress (str ''CityNm''),
             fm_state = child usAddress (str ''StateAbbreviationCd''),
             fm_assets =
               parseFloat (toString (Some
                 (orDefault
                    (orElse (child balanceSheet (str ''TotalAssetsEOYAmt''))
                       (child balanceSheet (str ''TotalAssetsBOYAmt'')))
                    (Text (str ''0''))))),
             fm_revenue =
               parseFloat (toString (Some
                 (orDefault (child revenueExpenses (str ''TotalRevAndExpnssAmt'')) (Text (str ''0'')))))\<rparr>
      in \<lparr>pf_funderEIN = funderEIN, pf_funderName = funderName,
          pf_grants = grantsLoop taxYear (grantSectionsOf irs990pf) [],
          pf_metadata = metadata\<rparr>)"

definition processXmlFile_try ::
  "(jstring \<Rightarrow> js_error + jstring) \<Rightarrow> (jstring \<Rightarrow> js_error + document) \<Rightarrow> jstring \<Rightarrow> nat
     \<Rightarrow> js_error + PFResult option" where
  "processXmlFile_try readFileSync parseStringPromise filePath year =
     (case readFileSync filePath of
        Inl e \<Rightarrow> Inl e
      | Inr xmlContent \<Rightarrow>
          if \<not> str_includes xmlContent (str ''<IRS990PF'') then Inr None
          else
            (case parseStringPromise xmlContent of
               Inl e \<Rightarrow> Inl e
             | Inr data \<Rightarrow>
                 (case dataReturn data of
                    Inl e \<Rightarrow> Inl e
                  | Inr ret \<Rightarrow>
                      let root = child ret (str ''ReturnData'');
                          header = child ret (str ''ReturnHeader'')
                      in if \<not> xml_truthy root \<or> \<not> xml_truthy header \<or> getOpt root (str ''IRS990PF'') = None
                         then Inr None
                         else Inr (Some (pfResultOf root header year)))))"

definition processXmlFile ::
  "(jstring \<Rightarrow> js_error + jstring) \<Rightarrow> (jstring \<Rightarrow> js_error + document) \<Rightarrow> jstring \<Rightarrow> nat
     \<Rightarrow> js_error + PFResult option" where
  "processXmlFile readFileSync parseStringPromise filePath year =
     (case processXmlFile_try readFileSync parseStringPromise filePath year of
        Inl error \<Rightarrow> Inr None
      | Inr result \<Rightarrow> Inr result)"

definition orgResultOf :: "xml option \<Rightarrow> xml option \<Rightarrow> OrgResult" where
  "orgResultOf returnData header =
     (let filer = child header (str ''Filer'');
          ein = child filer (str ''EIN'');
          name =
            orDefault
              (orElse (child (child filer (str ''BusinessName'')) (str ''BusinessNameLine1Txt''))
                 (child (child filer (str ''BusinessName'')) (str ''BusinessNameLine1'')))
              (Text (str ''Organization '' @ toString ein));
          irs990 = child returnData (str ''IRS990'');
          usAddress = orElse (child filer (str ''USAddress'')) (child irs990 (str ''PrincipalOfficeUSAddress''));
          metadata =
            \<lparr>fm_address =
               orElse (child usAddress (str ''AddressLine1Txt'')) (child usAddress (str ''AddressLine1'')),
             fm_city = orElse (child usAddress (str ''CityNm'')) (child usAddress (str ''City'')),
             fm_state = orElse (child usAddress (str ''StateAbbreviationCd'')) (child usAddress (str ''State'')),
             fm_assets =
               parseFloat (toString (Some
                 (orDefault
                    (orElse (child irs990 (str ''TotalAssetsEOYAmt''))
                       (child (child irs990 (str ''Form990PartVIISectionAGrp'')) (str ''TotalAssetsEOYAmt'')))
                    (Text (str ''0''))))),
             fm_revenue =
               parseFloat (toString (Some
                 (orDefault
                    (orElse (child irs990 (str ''CYTotalRevenueAmt''))
                       (child irs990 (str ''TotalRevenueCurrentYearAmt'')))
                    (Text (str ''0'')))))\<rparr>
      in \<lparr>or_ein = ein, or_name = name, or_metadata = metadata\<rparr>)"

definition parseXML990File_try ::
  "(jstring \<Rightarrow> js_error + jstring) \<Rightarrow> (jstring \<Rightarrow> js_error + document) \<Rightarrow> jstring \<Rightarrow> nat
     \<Rightarrow> js_error + OrgResult option" where
  "parseXML990File_try readFileSync parseStringPromise filePath year =
     (case readFileSync filePath of
        Inl e \<Rightarrow> Inl e
      | Inr xmlContent \<Rightarrow>
          if \<not> str_includes xmlContent (str ''<IRS990'') \<or> str_includes xmlContent (str ''<IRS990PF'')
          then Inr None
          else
            (case parseStringPromise xmlContent of
               Inl e \<Rightarrow> Inl e
             | Inr data \<Rightarrow>
                 (case dataReturn data of
                    Inl e \<Rightarrow> Inl e
                  | Inr ret \<Rightarrow>
                      let root = child ret (str ''ReturnData'');
                          header = child ret (str ''ReturnHeader'')
                      in if \<not> xml_truthy root \<or> \<not> xml_truthy header \<or> getOpt root (str ''IRS990'') = None
                         then Inr None
                         else Inr (Some (orgResultOf root header)))))"

definition parseXML990File ::
  "(jstring \<Rightarrow> js_error + jstring) \<Rightarrow> (jstring \<Rightarrow> js_error + document) \<Rightarrow> jstring \<Rightarrow> nat
     \<Rightarrow> js_error + OrgResult option" where
  "parseXML990File readFileSync parseStringPromise filePath year =
     (case parseXML990File_try readFileSync parseStringPromise filePath year of
        Inl error \<Rightarrow> Inr None
      | Inr result \<Rightarrow> Inr result)"

subsection \<open>The curated grant list: loadHLFGrantsFromExcel\<close>

text \<open>
  A worksheet row, as \<open>xlsx.utils.sheet_to_json\<close> returns it, is an object from column
  headers to cell values; a cell value is a string, a number or a boolean. A workbook is
  the list of its sheets by name.
\<close>

datatype cell = CellStr jstring | CellNum number | CellBool bool

type_synonym row = "(jstring \<times> cell) list"

type_synonym workbook = "(jstring \<times> row list) list"

record HLFGrant =
  h_organization :: jstring
  h_amount :: number
  h_year :: nat

definition cell_truthy :: "cell \<Rightarrow> bool" where
  "cell_truthy v = (case v of CellStr s \<Rightarrow> s \<noteq> [] | CellNum n \<Rightarrow> num_truthy n | CellBool b \<Rightarrow> b)"

text \<open>\<open>row.Organization || ''\<close>\<close>

definition rowOrganization :: "row \<Rightarrow> cell" where
  "rowOrganization row =
     (case map_of row (str ''Organization'') of
        Some v \<Rightarrow> if cell_truthy v then v else CellStr []
      | None \<Rightarrow> CellStr [])"

text \<open>\<open>row[`${year} Amount`] || row['2025 Amount'] || ''\<close>\<close>

definition rowAmount :: "nat \<Rightarrow> row \<Rightarrow> cell" where
  "rowAmount year row =
     (let second =
            (case map_of row (str ''2025 Amount'') of
               Some v \<Rightarrow> if cell_truthy v then v else CellStr []
             | None \<Rightarrow> CellStr [])
      in case map_of row (decimal year @ str '' Amount'') of
           Some v \<Rightarrow> if cell_truthy v then v else second
         | None \<Rightarrow> second)"

text \<open>
  \<open>parseFloat((String(amount) || '0').replace(/[$,]/g, '')) || 0\<close>. For a numeric cell
  \<open>String(n)\<close> holds no dollar sign and no comma and \<open>parseFloat(String(n))\<close> is the
  double \<open>n\<close> again, so the number is taken as it is; for a boolean \<open>String\<close> gives
  \<open>true\<close> or \<open>false\<close>.
\<close>

definition parseAmount :: "cell \<Rightarrow> number" where
  "parseAmount amount =
     (let v = (case amount of
                 CellNum n \<Rightarrow> n
               | CellStr s \<Rightarrow>
                   parseFloat (filter (\<lambda>c. c \<noteq> ch CHR ''$'' \<and> c \<noteq> ch CHR '','')
                                 (if s = [] then str ''0'' else s))
               | CellBool b \<Rightarrow> parseFloat (if b then str ''true'' else str ''false''))
      in if num_truthy v then v else Num 0)"

text \<open>
  The callback of \<open>data.filter\<close>. An organization cell that is not a string and reaches
  \<open>org.trim()\<close> raises a TypeError.
\<close>

definition keepRow :: "nat \<Rightarrow> row \<Rightarrow> js_error + bool" where
  "keepRow year row =
     (let org = rowOrganization row;
          amount = rowAmount year row
      in if \<not> cell_truthy org \<or> \<not> cell_truthy amount then Inr False
         else if org = CellStr (str ''Discretionary Grants'') \<or>
                 org = CellStr (str ''Mini grants for Storytelling'')
           then Inr False
         else
           let parsedAmount = parseAmount amount
           in case org of
                CellNum _ \<Rightarrow> Inl (TypeError (str ''org.trim is not a function''))
              | CellBool _ \<Rightarrow> Inl (TypeError (str ''org.trim is not a function''))
              | CellStr name \<Rightarrow>
                  let isSingleName = (length (split_ws (trim name)) = 1)
                  in if isSingleName \<and> num_le parsedAmount (Num 10000) then Inr False
                     else Inr True)"

fun filterRows :: "nat \<Rightarrow> row list \<Rightarrow> js_error + row list" where
  "filterRows year [] = Inr []"
| "filterRows year (r # rs) =
     (case keepRow year r of
        Inl e \<Rightarrow> Inl e
      | Inr keep \<Rightarrow>
          (case filterRows year rs of
             Inl e \<Rightarrow> Inl e
           | Inr kept \<Rightarrow> Inr (if keep then r # kept else kept)))"

text \<open>The callback of \<open>.map\<close>; a row that passed the filter has a string organization.\<close>

definition rowGrant :: "nat \<Rightarrow> row \<Rightarrow> HLFGrant" where
  "rowGrant year row =
     \<lparr>h_organization = (case map_of row (str ''Organization'') of Some (CellStr s) \<Rightarrow> s | _ \<Rightarrow> []),
      h_amount = parseAmount (rowAmount year row),
      h_year = year\<rparr>"

definition sheetYearMap :: "(jstring \<times> nat) list" where
  "sheetYearMap =
     [(str ''2020'', 2020), (str ''2021'', 2021), (str ''2022'', 2022), (str ''2023'', 2023),
      (str ''2024'', 2024), (str ''2025 DRAFT'', 2025)]"

fun loadSheets :: "workbook \<Rightarrow> (jstring \<times> nat) list \<Rightarrow> js_error + HLFGrant list" where
  "loadSheets wb [] = Inr []"
| "loadSheets wb ((sheetName, year) # rest) =
     (case map_of wb sheetName of
        None \<Rightarrow> loadSheets wb rest
      | Some data \<Rightarrow>
          (case filterRows year data of
             Inl e \<Rightarrow> Inl e
           | Inr kept \<Rightarrow>
               (case loadSheets wb rest of
                  Inl e \<Rightarrow> Inl e
                | Inr allGrants \<Rightarrow> Inr (map (rowGrant year) kept @ allGrants))))"

text \<open>The argument is what \<open>xlsx.readFile\<close> returns: the workbook, or the exception it raised.\<close>

definition loadHLFGrantsFromExcel :: "js_error + workbook \<Rightarrow> js_error + HLFGrant list" where
  "loadHLFGrantsFromExcel readFile =
     (case readFile of Inl e \<Rightarrow> Inl e | Inr wb \<Rightarrow> loadSheets wb sheetYearMap)"

subsection \<open>Objects used as dictionaries\<close>

text \<open>
  A \<open>Record<string, T>\<close> is the list of its properties in the order of their creation,
  with distinct keys. Reading a property is \<open>map_of\<close>; an assignment replaces the value of
  a key in place or appends a new property; \<open>delete\<close> removes the property.
  \<open>Object.keys\<close>, \<open>Object.values\<close> and \<open>Object.entries\<close> enumerate the properties whose
  key is an array index (a canonical decimal numeral below \<open>2^32 - 1\<close>) first, in ascending
  numeric order, and then the others in the order of their creation. Keys inherited from
  \<open>Object.prototype\<close> are not modelled. A \<open>Map\<close> is enumerated in insertion order and
  is the same kind of list without the reordering.
\<close>

type_synonym 'v dict = "(jstring \<times> 'v) list"

primrec dict_put :: "jstring \<Rightarrow> 'v \<Rightarrow> 'v dict \<Rightarrow> 'v dict" where
  "dict_put k v [] = [(k, v)]"
| "dict_put k v (p # ps) = (if fst p = k then (k, v) # ps else p # dict_put k v ps)"

definition dict_delete :: "jstring \<Rightarrow> 'v dict \<Rightarrow> 'v dict" where
  "dict_delete k d = filter (\<lambda>p. fst p \<noteq> k) d"

definition is_array_index :: "jstring \<Rightarrow> bool" where
  "is_array_index k =
     (k = str ''0'' \<or>
      (k \<noteq> [] \<and> list_all is_digit k \<and> hd k \<noteq> ch CHR ''0'' \<and> digits_value k < 2 ^ 32 - 1))"

definition objectEntries :: "'v dict \<Rightarrow> (jstring \<times> 'v) list" where
  "objectEntries d =
     sort_key (\<lambda>p. digits_value (fst p)) (filter (\<lambda>p. is_array_index (fst p)) d)
     @ filter (\<lambda>p. \<not> is_array_index (fst p)) d"

definition objectKeys :: "'v dict \<Rightarrow> jstring list" where
  "objectKeys d = map fst (objectEntries d)"

definition objectValues :: "'v dict \<Rightarrow> 'v list" where
  "objectValues d = map snd (objectEntries d)"

subsection \<open>normalizeOrgName\<close>

text \<open>
  The first replacement removes every match of
  \<open>/\b(inc|incorporated|llc|ltd|limited|corp|corporation|foundation|fund|trust|the|a|an)\b/g\<close>.
  The scan goes from left to right; at a position that is a word boundary the alternatives
  are tried in their order, and one matches when the text starts with it and a word
  boundary follows. A match is skipped and the scan goes on behind it. The second
  replacement removes every character outside \<open>a-z0-9\<close>.
\<close>

definition is_word_char :: "16 word \<Rightarrow> bool" where
  "is_word_char c = (is_lower c \<or> is_upper c \<or> is_digit c \<or> c = ch CHR ''_'')"

definition stopWords :: "jstring list" where
  "stopWords =
     map str
       [''inc'', ''incorporated'', ''llc'', ''ltd'', ''limited'', ''corp'', ''corporation'',
        ''foundation'', ''fund'', ''trust'', ''the'', ''a'', ''an'']"

definition word_boundary :: "16 word option \<Rightarrow> jstring \<Rightarrow> bool" where
  "word_boundary prev rest =
     ((case prev of None \<Rightarrow> False | Some p \<Rightarrow> is_word_char p)
      \<noteq> (case rest of [] \<Rightarrow> False | c # _ \<Rightarrow> is_word_char c))"

definition matchStopWord :: "16 word option \<Rightarrow> jstring \<Rightarrow> jstring option" where
  "matchStopWord prev rest =
     (if word_boundary prev rest
      then find (\<lambda>w. startsWith rest w \<and> word_boundary (Some (last w)) (drop (length w) rest)) stopWords
      else None)"

fun removeStopWords :: "nat \<Rightarrow> 16 word option \<Rightarrow> jstring \<Rightarrow> jstring" where
  "removeStopWords skip prev [] = []"
| "removeStopWords skip prev (c # cs) =
     (if skip > 0 then removeStopWords (skip - 1) (Some c) cs
      else case matchStopWord prev (c # cs) of
             Some w \<Rightarrow> removeStopWords (length w - 1) (Some c) cs
           | None \<Rightarrow> c # removeStopWords 0 (Some c) cs)"

definition normalizeOrgName :: "(jstring \<Rightarrow> jstring) \<Rightarrow> jstring \<Rightarrow> jstring" where
  "normalizeOrgName toLowerCase name =
     trim (filter (\<lambda>c. is_lower c \<or> is_digit c) (removeStopWords 0 None (toLowerCase name)))"

subsection \<open>The dataset builder: buildBidirectionalDataset\<close>

record Grant =
  g_recipientEIN :: jstring
  g_recipientName :: jstring
  g_amount :: number
  g_year :: number
  g_recipientCity :: "jstring option"
  g_recipientState :: "jstring option"
  g_recipientZip :: "jstring option"

record ReceivedGrant =
  r_funderEIN :: jstring
  r_funderName :: jstring
  r_amount :: number
  r_year :: number

record Metadata =
  m_address :: "jstring option"
  m_city :: "jstring option"
  m_state :: "jstring option"
  m_assets :: "number option"
  m_revenue :: "number option"

record Foundation =
  f_ein :: jstring
  f_name :: jstring
  f_grantsGiven :: "Grant list"
  f_metadata :: "Metadata option"

record Organization =
  o_ein :: jstring
  o_name :: jstring
  o_grantsReceived :: "ReceivedGrant list"
  o_metadata :: "Metadata option"

record DatasetMetadata =
  dm_foundationsProcessed :: nat
  dm_totalGrants :: nat
  dm_generatedAt :: jstring

record CompleteDataset =
  ds_foundations :: "Foundation dict"
  ds_organizations :: "Organization dict"
  ds_metadata :: DatasetMetadata

text \<open>An element of \<open>allGrantsData\<close>; a missing funder EIN is \<open>None\<close>.\<close>

record FunderRecord =
  fr_funderEIN :: "jstring option"
  fr_funderName :: jstring
  fr_grants :: "Grant list"
  fr_metadata :: "Metadata option"

text \<open>The key under which a grant is filed in \<open>organizations\<close>.\<close>

definition recipientKey :: "(jstring \<Rightarrow> jstring) \<Rightarrow> Grant \<Rightarrow> jstring" where
  "recipientKey toLowerCase grant =
     (if g_recipientEIN grant = [] \<or> startsWith (g_recipientEIN grant) (str ''unknown_'')
      then str ''no_ein_'' @ normalizeOrgName toLowerCase (g_recipientName grant)
      else g_recipientEIN grant)"

text \<open>The inner loop \<open>for (const grant of grants)\<close>.\<close>

fun addGrantsReceived ::
  "(jstring \<Rightarrow> jstring) \<Rightarrow> jstring \<Rightarrow> jstring \<Rightarrow> Grant list \<Rightarrow> Organization dict
     \<Rightarrow> Organization dict" where
  "addGrantsReceived toLowerCase funderEIN funderName [] organizations = organizations"
| "addGrantsReceived toLowerCase funderEIN funderName (grant # rest) organizations =
     (let recipientEIN = recipientKey toLowerCase grant;
          org = (case map_of organizations recipientEIN of
                   None \<Rightarrow> \<lparr>o_ein = recipientEIN, o_name = g_recipientName grant,
                              o_grantsReceived = [], o_metadata = None\<rparr>
                 | Some existing \<Rightarrow> existing);
          entry = \<lparr>r_funderEIN = funderEIN, r_funderName = funderName,
                   r_amount = g_amount grant, r_year = g_year grant\<rparr>
      in addGrantsReceived toLowerCase funderEIN funderName rest
           (dict_put recipientEIN (org\<lparr>o_grantsReceived := o_grantsReceived org @ [entry]\<rparr>) organizations))"

text \<open>The outer loop; the state is the two dictionaries and the counter \<open>totalGrants\<close>.\<close>

fun buildLoop ::
  "(jstring \<Rightarrow> jstring) \<Rightarrow> FunderRecord list \<Rightarrow> Foundation dict \<times> Organization dict \<times> nat
     \<Rightarrow> Foundation dict \<times> Organization dict \<times> nat" where
  "buildLoop toLowerCase [] st = st"
| "buildLoop toLowerCase (r # rs) (fs, os, totalGrants) =
     (case fr_funderEIN r of
        None \<Rightarrow> buildLoop toLowerCase rs (fs, os, totalGrants)
      | Some funderEIN \<Rightarrow>
          if funderEIN = [] then buildLoop toLowerCase rs (fs, os, totalGrants)
          else
            let foundation =
                  (case map_of fs funderEIN of
                     None \<Rightarrow> \<lparr>f_ein = funderEIN, f_name = fr_funderName r, f_grantsGiven = [],
                                f_metadata = fr_metadata r\<rparr>
                   | Some f \<Rightarrow> f)
            in buildLoop toLowerCase rs
                 (dict_put funderEIN (foundation\<lparr>f_grantsGiven := f_grantsGiven foundation @ fr_grants r\<rparr>) fs,
                  addGrantsReceived toLowerCase funderEIN (fr_funderName r) (fr_grants r) os,
                  totalGrants + length (fr_grants r)))"

text \<open>The first argument is the time stamp \<open>new Date().toISOString()\<close>.\<close>

definition buildBidirectionalDataset ::
  "(jstring \<Rightarrow> jstring) \<Rightarrow> jstring \<Rightarrow> FunderRecord list \<Rightarrow> CompleteDataset" where
  "buildBidirectionalDataset toLowerCase now allGrantsData =
     (case buildLoop toLowerCase allGrantsData ([], [], 0) of
        (fs, os, totalGrants) \<Rightarrow>
          \<lparr>ds_foundations = fs, ds_organizations = os,
           ds_metadata = \<lparr>dm_foundationsProcessed = length (objectKeys fs),
                           dm_totalGrants = totalGrants, dm_generatedAt = now\<rparr>\<rparr>)"

definition totalGiven :: "Foundation dict \<Rightarrow> nat" where
  "totalGiven fs = sum_list (map (\<lambda>p. length (f_grantsGiven (snd p))) fs)"

definition totalReceived :: "Organization dict \<Rightarrow> nat" where
  "totalReceived os = sum_list (map (\<lambda>p. length (o_grantsReceived (snd p))) os)"

text \<open>The number of grants of the records that have a non-empty funder EIN.\<close>

definition countedGrants :: "FunderRecord list \<Rightarrow> nat" where
  "countedGrants rs =
     sum_list (map (\<lambda>r. length (fr_grants r))
       (filter (\<lambda>r. fr_funderEIN r \<noteq> None \<and> fr_funderEIN r \<noteq> Some []) rs))"

subsection \<open>The dataset serializer: streamDatasetToFile\<close>

text \<open>
  \<open>JSON.stringify\<close> is the host's; the three stringifications the serializer asks for (of
  a foundation, of an organization and of the metadata) are its first arguments. The result
  is the list of the chunks written to the stream, in their order; the file holds their
  concatenation. A key is written between two double quotes (U+0022) as it is.
  \<open>entryChunks\<close> is the body of \<open>keys.forEach((key, index) => ...)\<close> over
  \<open>Object.keys\<close> of a dictionary; a template prints an undefined value as \<open>undefined\<close>.
\<close>

definition entryChunk :: "('v \<Rightarrow> jstring) \<Rightarrow> 'v dict \<Rightarrow> nat \<Rightarrow> nat \<times> jstring \<Rightarrow> jstring" where
  "entryChunk stringify d keysLength entry =
     (case entry of (index, key) \<Rightarrow>
        let comma = (if int index < int keysLength - 1 then str '','' else [])
        in [0x22] @ key @ [0x22] @ str '': ''
           @ (case map_of d key of Some v \<Rightarrow> stringify v | None \<Rightarrow> str ''undefined'')
           @ comma @ [0x0A])"

definition entryChunks :: "('v \<Rightarrow> jstring) \<Rightarrow> 'v dict \<Rightarrow> jstring list" where
  "entryChunks stringify d =
     (let keys = objectKeys d
      in map (entryChunk stringify d (length keys)) (enumerate 0 keys))"

definition streamDatasetToFile ::
  "(Foundation \<Rightarrow> jstring) \<Rightarrow> (Organization \<Rightarrow> jstring) \<Rightarrow> (DatasetMetadata \<Rightarrow> jstring)
     \<Rightarrow> CompleteDataset \<Rightarrow> jstring list" where
  "streamDatasetToFile stringifyFoundation stringifyOrganization stringifyMetadata dataset =
     [str ''{'' @ [0x0A],
      [0x22] @ str ''foundations'' @ [0x22] @ str '': {'' @ [0x0A]]
     @ entryChunks stringifyFoundation (ds_foundations dataset)
     @ [str ''},'' @ [0x0A],
        [0x22] @ str ''organizations'' @ [0x22] @ str '': {'' @ [0x0A]]
     @ entryChunks stringifyOrganization (ds_organizations dataset)
     @ [str ''},'' @ [0x0A],
        [0x22] @ str ''metadata'' @ [0x22] @ str '': '' @ stringifyMetadata (ds_metadata dataset) @ [0x0A],
        str ''}'' @ [0x0A]]"

text \<open>
  A syntactically valid JSON document, as \<open>JSON.parse\<close> accepts it (ECMA-404): white
  space, one value, white space. The grammar is recognised by an automaton that reads the
  text one code unit at a time, with the stack of the objects and arrays that are open.
  The states: a value is expected (\<open>SValue\<close>; \<open>SValueOrEnd\<close> right after \<open>[\<close>), a key is
  expected (\<open>SKey\<close>; \<open>SKeyOrEnd\<close> right after \<open>{\<close>), the colon after a key, the place after
  a value, the inside of a string (of a key when the flag is set) with its escapes, the
  parts of a number, and the rest of one of the words \<open>true\<close>, \<open>false\<close>, \<open>null\<close>.
\<close>

datatype json_ctx = InObject | InArray

datatype json_state =
    SValue | SValueOrEnd | SKeyOrEnd | SKey | SColon | SAfter
  | SString bool | SEscape bool | SHex bool nat
  | SMinus | SZero | SInt | SPoint | SFrac | SExp | SExpSign | SExpDigits
  | SWord jstring

definition json_ws :: "16 word \<Rightarrow> bool" where
  "json_ws c = (c = 0x20 \<or> c = 0x09 \<or> c = 0x0A \<or> c = 0x0D)"

definition is_hex :: "16 word \<Rightarrow> bool" where
  "is_hex c =
     (is_digit c \<or> (ch CHR ''a'' \<le> c \<and> c \<le> ch CHR ''f'') \<or> (ch CHR ''A'' \<le> c \<and> c \<le> ch CHR ''F''))"

text \<open>The code unit that follows a complete value, and the one that begins a value.\<close>

definition after_value :: "json_ctx list \<Rightarrow> 16 word \<Rightarrow> (json_state \<times> json_ctx list) option" where
  "after_value stack c =
     (if json_ws c then Some (SAfter, stack)
      else if c = ch CHR '','' then
        (case stack of
           [] \<Rightarrow> None
         | InObject # _ \<Rightarrow> Some (SKey, stack)
         | InArray # _ \<Rightarrow> Some (SValue, stack))
      else if c = ch CHR ''}'' then
        (case stack of InObject # rest \<Rightarrow> Some (SAfter, rest) | _ \<Rightarrow> None)
      else if c = ch CHR '']'' then
        (case stack of InArray # rest \<Rightarrow> Some (SAfter, rest) | _ \<Rightarrow> None)
      else None)"

definition start_value :: "json_ctx list \<Rightarrow> 16 word \<Rightarrow> (json_state \<times> json_ctx list) option" where
  "start_value stack c =
     (if c = ch CHR ''{'' then Some (SKeyOrEnd, InObject # stack)
      else if c = ch CHR ''['' then Some (SValueOrEnd, InArray # stack)
      else if c = 0x22 then Some (SString False, stack)
      else if c = ch CHR ''-'' then Some (SMinus, stack)
      else if c = ch CHR ''0'' then Some (SZero, stack)
      else if is_digit c then Some (SInt, stack)
      else if c = ch CHR ''t'' then Some (SWord (str ''rue''), stack)
      else if c = ch CHR ''f'' then Some (SWord (str ''alse''), stack)
      else if c = ch CHR ''n'' then Some (SWord (str ''ull''), stack)
      else None)"

definition json_step ::
  "json_state \<Rightarrow> json_ctx list \<Rightarrow> 16 word \<Rightarrow> (json_state \<times> json_ctx list) option" where
  "json_step state stack c =
     (case state of
        SValue \<Rightarrow> if json_ws c then Some (SValue, stack) else start_value stack c
      | SValueOrEnd \<Rightarrow>
          if json_ws c then Some (SValueOrEnd, stack)
          else if c = ch CHR '']'' then Some (SAfter, tl stack)
          else start_value stack c
      | SKeyOrEnd \<Rightarrow>
          if json_ws c then Some (SKeyOrEnd, stack)
          else if c = 0x22 then Some (SString True, stack)
          else if c = ch CHR ''}'' then Some (SAfter, tl stack)
          else None
      | SKey \<Rightarrow>
          if json_ws c then Some (SKey, stack)
          else if c = 0x22 then Some (SString True, stack)
          else None
      | SColon \<Rightarrow>
          if json_ws c then Some (SColon, stack)
          else if c = ch CHR '':'' then Some (SValue, stack)
          else None
      | SAfter \<Rightarrow> after_value stack c
      | SString k \<Rightarrow>
          if c = 0x22 then Some (if k then SColon else SAfter, stack)
          else if c = 0x5C then Some (SEscape k, stack)
          else if c < 0x20 then None
          else Some (SString k, stack)
      | SEscape k \<Rightarrow>
          if c \<in> set ([0x22, 0x5C] @ str ''/bfnrt'') then Some (SString k, stack)
          else if c = ch CHR ''u'' then Some (SHex k 4, stack)
          else None
      | SHex k n \<Rightarrow>
          if is_hex c then Some (if n \<le> 1 then SString k else SHex k (n - 1), stack) else None
      | SMinus \<Rightarrow>
          if c = ch CHR ''0'' then Some (SZero, stack)
          else if is_digit c then Some (SInt, stack)
          else None
      | SZero \<Rightarrow>
          if c = ch CHR ''.'' then Some (SPoint, stack)
          else if c = ch CHR ''e'' \<or> c = ch CHR ''E'' then Some (SExp, stack)
          else after_value stack c
      | SInt \<Rightarrow>
          if is_digit c then Some (SInt, stack)
          else if c = ch CHR ''.'' then Some (SPoint, stack)
          else if c = ch CHR ''e'' \<or> c = ch CHR ''E'' then Some (SExp, stack)
          else after_value stack c
      | SPoint \<Rightarrow> if is_digit c then Some (SFrac, stack) else None
      | SFrac \<Rightarrow>
          if is_digit c then Some (SFrac, stack)
          else if c = ch CHR ''e'' \<or> c = ch CHR ''E'' then Some (SExp, stack)
          else after_value stack c
      | SExp \<Rightarrow>
          if c = ch CHR ''+'' \<or> c = ch CHR ''-'' then Some (SExpSign, stack)
          else if is_digit c then Some (SExpDigits, stack)
          else None
      | SExpSign \<Rightarrow> if is_digit c then Some (SExpDigits, stack) else None
      | SExpDigits \<Rightarrow> if is_digit c then Some (SExpDigits, stack) else after_value stack c
      | SWord rest \<Rightarrow>
          (case rest of
             [] \<Rightarrow> None
           | x # xs \<Rightarrow> if c = x then Some (if xs = [] then SAfter else SWord xs, stack) else None))"

text \<open>At the end of the text a value must be complete and nothing may be open.\<close>

definition json_end :: "json_state \<Rightarrow> json_ctx list \<Rightarrow> bool" where
  "json_end state stack = (stack = [] \<and> state \<in> {SAfter, SZero, SInt, SFrac, SExpDigits})"

fun json_run :: "json_state \<Rightarrow> json_ctx list \<Rightarrow> jstring \<Rightarrow> bool" where
  "json_run state stack [] = json_end state stack"
| "json_run state stack (c # cs) =
     (case json_step state stack c of
        None \<Rightarrow> False
      | Some (state', stack') \<Rightarrow> json_run state' stack' cs)"

definition valid_json :: "jstring \<Rightarrow> bool" where
  "valid_json text = json_run SValue [] text"

subsection \<open>The name index and the consolidation pass of main\<close>

text \<open>\<open>buildNameToEINIndex\<close>: a \<open>Map\<close> from normalized names to the keys with that name.\<close>

fun indexLoop ::
  "(jstring \<Rightarrow> jstring) \<Rightarrow> (jstring \<times> Organization) list \<Rightarrow> jstring list dict
     \<Rightarrow> jstring list dict" where
  "indexLoop toLowerCase [] nameIndex = nameIndex"
| "indexLoop toLowerCase ((ein, org) # rest) nameIndex =
     (let normalizedName = normalizeOrgName toLowerCase (o_name org);
          eins = (case map_of nameIndex normalizedName of None \<Rightarrow> [] | Some l \<Rightarrow> l)
      in indexLoop toLowerCase rest (dict_put normalizedName (eins @ [ein]) nameIndex))"

definition buildNameToEINIndex :: "(jstring \<Rightarrow> jstring) \<Rightarrow> CompleteDataset \<Rightarrow> jstring list dict" where
  "buildNameToEINIndex toLowerCase dataset = indexLoop toLowerCase (objectEntries (ds_organizations dataset)) []"

text \<open>
  The block of \<open>main\<close> that consolidates placeholder entries, after the Form 990
  organizations are merged. One step handles one placeholder key; the state is the
  dictionary of organizations and the counter \<open>consolidated\<close>. Reading \<open>org.name\<close> of a
  key that is gone raises a TypeError.
\<close>

definition consolidateStep ::
  "(jstring \<Rightarrow> jstring) \<Rightarrow> jstring list dict \<Rightarrow> jstring \<Rightarrow> Organization dict \<times> nat
     \<Rightarrow> js_error + Organization dict \<times> nat" where
  "consolidateStep toLowerCase nameIndex placeholderKey st =
     (case st of (organizations, consolidated) \<Rightarrow>
        (case map_of organizations placeholderKey of
           None \<Rightarrow> Inl (TypeError (str ''Cannot read properties of undefined''))
         | Some org \<Rightarrow>
             (case map_of nameIndex (normalizeOrgName toLowerCase (o_name org)) of
                None \<Rightarrow> Inr st
              | Some matches \<Rightarrow>
                  if length matches > 0 then
                    (case find (\<lambda>ein. \<not> startsWith ein (str ''no_ein_'')) matches of
                       None \<Rightarrow> Inr st
                     | Some realEIN \<Rightarrow>
                         if realEIN \<noteq> [] \<and> realEIN \<noteq> placeholderKey then
                           (case map_of organizations realEIN of
                              Some realOrg \<Rightarrow>
                                Inr (dict_delete placeholderKey
                                       (dict_put realEIN
                                          (realOrg\<lparr>o_grantsReceived :=
                                                  o_grantsReceived realOrg @ o_grantsReceived org\<rparr>)
                                          organizations),
                                     consolidated + 1)
                            | None \<Rightarrow> Inr (dict_delete placeholderKey organizations, consolidated))
                         else Inr st)
                  else Inr st)))"

fun consolidateLoop ::
  "(jstring \<Rightarrow> jstring) \<Rightarrow> jstring list dict \<Rightarrow> jstring list \<Rightarrow> Organization dict \<times> nat
     \<Rightarrow> js_error + Organization dict \<times> nat" where
  "consolidateLoop toLowerCase nameIndex [] st = Inr st"
| "consolidateLoop toLowerCase nameIndex (placeholderKey # rest) st =
     (case consolidateStep toLowerCase nameIndex placeholderKey st of
        Inl e \<Rightarrow> Inl e
      | Inr st' \<Rightarrow> consolidateLoop toLowerCase nameIndex rest st')"

definition consolidatePlaceholders ::
  "(jstring \<Rightarrow> jstring) \<Rightarrow> CompleteDataset \<Rightarrow> js_error + CompleteDataset \<times> nat" where
  "consolidatePlaceholders toLowerCase dataset =
     (let nameIndex = buildNameToEINIndex toLowerCase dataset;
          placeholderKeys = filter (\<lambda>k. startsWith k (str ''no_ein_'')) (objectKeys (ds_organizations dataset))
      in case consolidateLoop toLowerCase nameIndex placeholderKeys (ds_organizations dataset, 0) of
           Inl e \<Rightarrow> Inl e
         | Inr (organizations, consolidated) \<Rightarrow>
             Inr (dataset\<lparr>ds_organizations := organizations\<rparr>, consolidated))"

subsection \<open>The network builders: buildHLFNetwork and buildCustomEINNetwork\<close>

text \<open>
  A node and a link of the network, with the fields the builders write; a field a node
  does not carry is \<open>None\<close>. While a builder runs, its state is the array \<open>nodes\<close>, the
  array \<open>links\<close> and the set \<open>addedNodes\<close> (kept as the list of the ids added, in order).
  Counters that are only printed are left out.
\<close>

datatype NodeType = Funder | Grantee

datatype LinkType = HlfGrant | OtherFunder

record Node =
  n_id :: jstring
  n_name :: jstring
  n_type :: NodeType
  n_central :: "bool option"
  n_amount :: "number option"
  n_metadata :: "Metadata option"
  n_grantsReceived :: "ReceivedGrant list option"
  n_grantsGiven :: "Grant list option"

record Link =
  l_source :: jstring
  l_target :: jstring
  l_amount :: number
  l_type :: LinkType
  l_year :: number

record NetworkGraph =
  ng_nodes :: "Node list"
  ng_links :: "Link list"

type_synonym builder_state = "Node list \<times> Link list \<times> jstring list"

text \<open>
  The three updates of the state the builders make: \<open>nodes.push(node)\<close> with
  \<open>addedNodes.add(node.id)\<close>, the same under the guard \<open>!addedNodes.has(node.id)\<close>,
  and a sequence of \<open>links.push\<close>.
\<close>

definition pushNode :: "Node \<Rightarrow> builder_state \<Rightarrow> builder_state" where
  "pushNode node st =
     (case st of (nodes, links, addedNodes) \<Rightarrow> (nodes @ [node], links, addedNodes @ [n_id node]))"

definition addNodeOnce :: "Node \<Rightarrow> builder_state \<Rightarrow> builder_state" where
  "addNodeOnce node st =
     (case st of (nodes, links, addedNodes) \<Rightarrow>
        if n_id node \<in> set addedNodes then st else pushNode node st)"

definition pushLinks :: "Link list \<Rightarrow> builder_state \<Rightarrow> builder_state" where
  "pushLinks new st = (case st of (nodes, links, addedNodes) \<Rightarrow> (nodes, links @ new, addedNodes))"

text \<open>
  The loop over the other funders of a grantee is written twice in the source, once in
  each builder, with the same body; the two copies differ in the EIN that is skipped
  (\<open>HLF_EIN\<close>, or the central EIN). It is modelled once, with that EIN as the first argument.
\<close>

definition funderNode :: "Foundation dict \<Rightarrow> ReceivedGrant \<Rightarrow> Node" where
  "funderNode foundations grant =
     (let funderData = map_of foundations (r_funderEIN grant)
      in \<lparr>n_id = r_funderEIN grant, n_name = r_funderName grant, n_type = Funder,
          n_central = None, n_amount = None,
          n_metadata = (case funderData of None \<Rightarrow> None | Some f \<Rightarrow> f_metadata f),
          n_grantsReceived = None,
          n_grantsGiven = Some (case funderData of None \<Rightarrow> [] | Some f \<Rightarrow> f_grantsGiven f)\<rparr>)"

definition funderLink :: "jstring \<Rightarrow> ReceivedGrant \<Rightarrow> Link" where
  "funderLink target grant =
     \<lparr>l_source = r_funderEIN grant, l_target = target, l_amount = r_amount grant,
      l_type = OtherFunder, l_year = r_year grant\<rparr>"

definition otherFunderStep ::
  "jstring \<Rightarrow> Foundation dict \<Rightarrow> jstring \<Rightarrow> ReceivedGrant \<Rightarrow> builder_state \<Rightarrow> builder_state" where
  "otherFunderStep skipEIN foundations target grant st =
     (if r_funderEIN grant = skipEIN then st
      else pushLinks [funderLink target grant] (addNodeOnce (funderNode foundations grant) st))"

fun addOtherFunders ::
  "jstring \<Rightarrow> Foundation dict \<Rightarrow> jstring \<Rightarrow> ReceivedGrant list \<Rightarrow> builder_state \<Rightarrow> builder_state" where
  "addOtherFunders skipEIN foundations target [] st = st"
| "addOtherFunders skipEIN foundations target (grant # rest) st =
     addOtherFunders skipEIN foundations target rest (otherFunderStep skipEIN foundations target grant st)"

text \<open>buildHLFNetwork\<close>

definition HLF_EIN :: jstring where
  "HLF_EIN = str ''352338463''"

definition hlfId :: jstring where
  "hlfId = str ''hlf''"

record YearAmount =
  ya_amount :: number
  ya_year :: nat

text \<open>\<open>s.toLowerCase().trim()\<close>\<close>

definition hlfName :: "(jstring \<Rightarrow> jstring) \<Rightarrow> jstring \<Rightarrow> jstring" where
  "hlfName toLowerCase s = trim (toLowerCase s)"

text \<open>\<open>s.replace(/\s+/g, '_')\<close>\<close>

function replaceSpaces :: "jstring \<Rightarrow> jstring" where
  "replaceSpaces [] = []"
| "replaceSpaces (c # cs) =
     (if is_space c then ch CHR ''_'' # replaceSpaces (dropWhile is_space cs)
      else c # replaceSpaces cs)"
  by pat_completeness auto
termination
  by (relation "measure length") (auto simp: length_dropWhile_le le_imp_less_Suc)

text \<open>The grouping of grants by name into a \<open>Map\<close>, used for all grants and for the unmatched ones.\<close>

fun groupHLFGrants ::
  "(jstring \<Rightarrow> jstring) \<Rightarrow> HLFGrant list \<Rightarrow> YearAmount list dict \<Rightarrow> YearAmount list dict" where
  "groupHLFGrants toLowerCase [] byOrg = byOrg"
| "groupHLFGrants toLowerCase (grant # rest) byOrg =
     (let normalizedName = hlfName toLowerCase (h_organization grant);
          grants = (case map_of byOrg normalizedName of None \<Rightarrow> [] | Some l \<Rightarrow> l)
      in groupHLFGrants toLowerCase rest
           (dict_put normalizedName (grants @ [\<lparr>ya_amount = h_amount grant, ya_year = h_year grant\<rparr>]) byOrg))"

definition foundInDataset :: "(jstring \<Rightarrow> jstring) \<Rightarrow> CompleteDataset \<Rightarrow> HLFGrant \<Rightarrow> bool" where
  "foundInDataset toLowerCase dataset hlfGrant =
     list_ex (\<lambda>org. hlfName toLowerCase (o_name org) = hlfName toLowerCase (h_organization hlfGrant))
       (objectValues (ds_organizations dataset))"

definition hlfReceived :: "YearAmount \<Rightarrow> ReceivedGrant" where
  "hlfReceived g =
     \<lparr>r_funderEIN = str ''hlf'', r_funderName = str ''Hidden Leaf Foundation'', r_amount = ya_amount g,
      r_year = Num (real (ya_year g))\<rparr>"

definition hlfLink :: "jstring \<Rightarrow> YearAmount \<Rightarrow> Link" where
  "hlfLink target grant =
     \<lparr>l_source = hlfId, l_target = target, l_amount = ya_amount grant, l_type = HlfGrant,
      l_year = Num (real (ya_year grant))\<rparr>"

text \<open>\<open>grants.reduce((sum, g) => sum + g.amount, 0)\<close> over a list of amounts.\<close>

definition sumAmounts :: "number list \<Rightarrow> number" where
  "sumAmounts amounts = foldl num_add (Num 0) amounts"

text \<open>
  The loop over \<open>unmatchedByOrg\<close>. The original name is the organization of the first
  unmatched grant with the group's name; there is always one, since the groups are made
  from these grants.
\<close>

definition unmatchedNode ::
  "(jstring \<Rightarrow> jstring) \<Rightarrow> HLFGrant list \<Rightarrow> jstring \<Rightarrow> YearAmount list \<Rightarrow> Node" where
  "unmatchedNode toLowerCase unmatchedGrantees normalizedName grants =
     \<lparr>n_id = str ''hlf_grantee_'' @ replaceSpaces normalizedName,
      n_name = (case find (\<lambda>g. hlfName toLowerCase (h_organization g) = normalizedName) unmatchedGrantees of
                  Some g \<Rightarrow> h_organization g
                | None \<Rightarrow> []),
      n_type = Grantee, n_central = None,
      n_amount = Some (sumAmounts (map ya_amount grants)), n_metadata = None,
      n_grantsReceived = Some (map hlfReceived grants), n_grantsGiven = None\<rparr>"

definition unmatchedStep ::
  "(jstring \<Rightarrow> jstring) \<Rightarrow> HLFGrant list \<Rightarrow> jstring \<times> YearAmount list \<Rightarrow> builder_state
     \<Rightarrow> builder_state" where
  "unmatchedStep toLowerCase unmatchedGrantees entry st =
     (case entry of (normalizedName, grants) \<Rightarrow>
        pushLinks (map (hlfLink (str ''hlf_grantee_'' @ replaceSpaces normalizedName)) grants)
          (pushNode (unmatchedNode toLowerCase unmatchedGrantees normalizedName grants) st))"

fun unmatchedLoop ::
  "(jstring \<Rightarrow> jstring) \<Rightarrow> HLFGrant list \<Rightarrow> (jstring \<times> YearAmount list) list \<Rightarrow> builder_state
     \<Rightarrow> builder_state" where
  "unmatchedLoop toLowerCase unmatchedGrantees [] st = st"
| "unmatchedLoop toLowerCase unmatchedGrantees (entry # rest) st =
     unmatchedLoop toLowerCase unmatchedGrantees rest (unmatchedStep toLowerCase unmatchedGrantees entry st)"

text \<open>The loop over \<open>Object.entries(dataset.organizations)\<close>.\<close>

definition matchedNode :: "jstring \<Rightarrow> Organization \<Rightarrow> YearAmount list \<Rightarrow> Node" where
  "matchedNode orgEIN org hlfGrants =
     \<lparr>n_id = orgEIN, n_name = o_name org, n_type = Grantee, n_central = None,
      n_amount = Some (sumAmounts (map ya_amount hlfGrants)),
      n_metadata = o_metadata org,
      n_grantsReceived = Some (map hlfReceived hlfGrants @ o_grantsReceived org),
      n_grantsGiven = None\<rparr>"

definition matchedStep ::
  "(jstring \<Rightarrow> jstring) \<Rightarrow> jstring list \<Rightarrow> YearAmount list dict \<Rightarrow> Foundation dict
     \<Rightarrow> jstring \<times> Organization \<Rightarrow> builder_state \<Rightarrow> builder_state" where
  "matchedStep toLowerCase hlfGranteeNames hlfGrantsByOrg foundations entry st =
     (case entry of (orgEIN, org) \<Rightarrow>
        let normalizedName = hlfName toLowerCase (o_name org)
        in if normalizedName \<in> set hlfGranteeNames then
             let hlfGrants = (case map_of hlfGrantsByOrg normalizedName of None \<Rightarrow> [] | Some l \<Rightarrow> l)
             in addOtherFunders HLF_EIN foundations orgEIN (o_grantsReceived org)
                  (pushLinks (map (hlfLink orgEIN) hlfGrants)
                     (addNodeOnce (matchedNode orgEIN org hlfGrants) st))
           else st)"

fun matchedLoop ::
  "(jstring \<Rightarrow> jstring) \<Rightarrow> jstring list \<Rightarrow> YearAmount list dict \<Rightarrow> Foundation dict
     \<Rightarrow> (jstring \<times> Organization) list \<Rightarrow> builder_state \<Rightarrow> builder_state" where
  "matchedLoop toLowerCase hlfGranteeNames hlfGrantsByOrg foundations [] st = st"
| "matchedLoop toLowerCase hlfGranteeNames hlfGrantsByOrg foundations (entry # rest) st =
     matchedLoop toLowerCase hlfGranteeNames hlfGrantsByOrg foundations rest
       (matchedStep toLowerCase hlfGranteeNames hlfGrantsByOrg foundations entry st)"

definition hlfNode :: Node where
  "hlfNode =
     \<lparr>n_id = hlfId, n_name = str ''Hidden Leaf Foundation'', n_type = Funder, n_central = Some True,
      n_amount = None, n_metadata = None, n_grantsReceived = None, n_grantsGiven = None\<rparr>"

text \<open>The builder on the grants the loader returned.\<close>

definition buildHLFNetworkFrom ::
  "(jstring \<Rightarrow> jstring) \<Rightarrow> HLFGrant list \<Rightarrow> CompleteDataset \<Rightarrow> NetworkGraph" where
  "buildHLFNetworkFrom toLowerCase allHLFGrantees dataset =
     (let hlfGrantsByOrg = groupHLFGrants toLowerCase allHLFGrantees [];
          hlfGranteeNames = map (\<lambda>g. hlfName toLowerCase (h_organization g)) allHLFGrantees;
          unmatchedGrantees = filter (\<lambda>g. \<not> foundInDataset toLowerCase dataset g) allHLFGrantees;
          unmatchedByOrg = groupHLFGrants toLowerCase unmatchedGrantees [];
          st1 = unmatchedLoop toLowerCase unmatchedGrantees unmatchedByOrg (pushNode hlfNode ([], [], []));
          st2 = matchedLoop toLowerCase hlfGranteeNames hlfGrantsByOrg (ds_foundations dataset)
                  (objectEntries (ds_organizations dataset)) st1
      in \<lparr>ng_nodes = fst st2, ng_links = fst (snd st2)\<rparr>)"

definition buildHLFNetwork ::
  "(jstring \<Rightarrow> jstring) \<Rightarrow> js_error + workbook \<Rightarrow> CompleteDataset \<Rightarrow> js_error + NetworkGraph" where
  "buildHLFNetwork toLowerCase readFile dataset =
     (case loadHLFGrantsFromExcel readFile of
        Inl e \<Rightarrow> Inl e
      | Inr allHLFGrantees \<Rightarrow> Inr (buildHLFNetworkFrom toLowerCase allHLFGrantees dataset))"

text \<open>buildCustomEINNetwork\<close>

definition lacksEIN :: "jstring \<Rightarrow> bool" where
  "lacksEIN ein = (ein = [] \<or> ein = str ''unknown'' \<or> startsWith ein (str ''unknown_''))"

definition str_truthy :: "jstring option \<Rightarrow> bool" where
  "str_truthy v = (case v of None \<Rightarrow> False | Some s \<Rightarrow> s \<noteq> [])"

text \<open>The address test of one candidate in the loop over \<open>matches\<close>.\<close>

definition addressMatches :: "(jstring \<Rightarrow> jstring) \<Rightarrow> CompleteDataset \<Rightarrow> Grant \<Rightarrow> jstring \<Rightarrow> bool" where
  "addressMatches toUpperCase dataset grant candidateEIN =
     (case map_of (ds_organizations dataset) candidateEIN of
        None \<Rightarrow> False
      | Some org \<Rightarrow>
          (case o_metadata org of
             None \<Rightarrow> False
           | Some md \<Rightarrow>
               (case m_city md of
                  None \<Rightarrow> False
                | Some city \<Rightarrow> Some (toUpperCase city) = map_option toUpperCase (g_recipientCity grant))
               \<and> (case m_state md of
                    None \<Rightarrow> False
                  | Some state \<Rightarrow> Some (toUpperCase state) = map_option toUpperCase (g_recipientState grant))))"

text \<open>The body of \<open>grantsGiven.forEach\<close> up to the choice of \<open>ein\<close>.\<close>

definition resolveRecipient ::
  "(jstring \<Rightarrow> jstring) \<Rightarrow> (jstring \<Rightarrow> jstring) \<Rightarrow> CompleteDataset \<Rightarrow> jstring list dict \<Rightarrow> Grant
     \<Rightarrow> jstring" where
  "resolveRecipient toLowerCase toUpperCase dataset nameIndex grant =
     (let ein = g_recipientEIN grant
      in if lacksEIN ein then
           let normalizedName = normalizeOrgName toLowerCase (g_recipientName grant)
           in case map_of nameIndex normalizedName of
                None \<Rightarrow> str ''no_ein_'' @ normalizedName
              | Some matches \<Rightarrow>
                  if length matches = 1 then matches ! 0
                  else if length matches > 1 then
                    (if str_truthy (g_recipientCity grant) \<and> str_truthy (g_recipientState grant) then
                       (case find (addressMatches toUpperCase dataset grant) matches of
                          Some candidateEIN \<Rightarrow> candidateEIN
                        | None \<Rightarrow> matches ! 0)
                     else matches ! 0)
                  else str ''no_ein_'' @ normalizedName
         else ein)"

fun groupByRecipient ::
  "(jstring \<Rightarrow> jstring) \<Rightarrow> (jstring \<Rightarrow> jstring) \<Rightarrow> CompleteDataset \<Rightarrow> jstring list dict
     \<Rightarrow> Grant list \<Rightarrow> Grant list dict \<Rightarrow> Grant list dict" where
  "groupByRecipient toLowerCase toUpperCase dataset nameIndex [] grantsByRecipient = grantsByRecipient"
| "groupByRecipient toLowerCase toUpperCase dataset nameIndex (grant # rest) grantsByRecipient =
     (let ein = resolveRecipient toLowerCase toUpperCase dataset nameIndex grant;
          grants = (case map_of grantsByRecipient ein of None \<Rightarrow> [] | Some l \<Rightarrow> l)
      in groupByRecipient toLowerCase toUpperCase dataset nameIndex rest
           (dict_put ein (grants @ [grant]) grantsByRecipient))"

definition centralLink :: "jstring \<Rightarrow> jstring \<Rightarrow> Grant \<Rightarrow> Link" where
  "centralLink centralId recipientEIN grant =
     \<lparr>l_source = centralId, l_target = recipientEIN, l_amount = g_amount grant, l_type = HlfGrant,
      l_year = g_year grant\<rparr>"

text \<open>
  The loop over \<open>grantsByRecipient.entries()\<close>. A group is never empty, so \<open>firstGrant\<close>
  exists.
\<close>

definition recipientNode ::
  "CompleteDataset \<Rightarrow> jstring \<Rightarrow> jstring \<Rightarrow> jstring \<Rightarrow> Grant list \<Rightarrow> Node" where
  "recipientNode dataset centralEIN centralName recipientEIN grants =
     (let recipientOrg = map_of (ds_organizations dataset) recipientEIN;
          firstName = (case grants of [] \<Rightarrow> [] | firstGrant # _ \<Rightarrow> g_recipientName firstGrant)
      in \<lparr>n_id = recipientEIN,
          n_name = (case recipientOrg of
                      None \<Rightarrow> firstName
                    | Some org \<Rightarrow> if o_name org \<noteq> [] then o_name org else firstName),
          n_type = Grantee, n_central = None,
          n_amount = Some (sumAmounts (map g_amount grants)),
          n_metadata = (case recipientOrg of None \<Rightarrow> None | Some org \<Rightarrow> o_metadata org),
          n_grantsReceived =
            Some (case recipientOrg of
                    Some org \<Rightarrow> o_grantsReceived org
                  | None \<Rightarrow>
                      map (\<lambda>g. \<lparr>r_funderEIN = centralEIN, r_funderName = centralName,
                                 r_amount = g_amount g, r_year = g_year g\<rparr>) grants),
          n_grantsGiven = None\<rparr>)"

definition recipientStep ::
  "CompleteDataset \<Rightarrow> jstring \<Rightarrow> jstring \<Rightarrow> jstring \<times> Grant list \<Rightarrow> builder_state \<Rightarrow> builder_state" where
  "recipientStep dataset centralEIN centralName entry st =
     (case entry of (recipientEIN, grants) \<Rightarrow>
        let st1 = pushLinks (map (centralLink centralEIN recipientEIN) grants)
                    (addNodeOnce (recipientNode dataset centralEIN centralName recipientEIN grants) st)
        in case map_of (ds_organizations dataset) recipientEIN of
             None \<Rightarrow> st1
           | Some recipientOrg \<Rightarrow>
               addOtherFunders centralEIN (ds_foundations dataset) recipientEIN
                 (o_grantsReceived recipientOrg) st1)"

fun recipientsLoop ::
  "CompleteDataset \<Rightarrow> jstring \<Rightarrow> jstring \<Rightarrow> (jstring \<times> Grant list) list \<Rightarrow> builder_state \<Rightarrow> builder_state" where
  "recipientsLoop dataset centralEIN centralName [] st = st"
| "recipientsLoop dataset centralEIN centralName (entry # rest) st =
     recipientsLoop dataset centralEIN centralName rest (recipientStep dataset centralEIN centralName entry st)"

definition centralNode :: "jstring \<Rightarrow> Foundation \<Rightarrow> Node" where
  "centralNode centralEIN centralFoundation =
     \<lparr>n_id = centralEIN, n_name = f_name centralFoundation, n_type = Funder, n_central = Some True,
      n_amount = None, n_metadata = f_metadata centralFoundation, n_grantsReceived = None,
      n_grantsGiven = None\<rparr>"

definition buildCustomEINNetwork ::
  "(jstring \<Rightarrow> jstring) \<Rightarrow> (jstring \<Rightarrow> jstring) \<Rightarrow> CompleteDataset \<Rightarrow> jstring
     \<Rightarrow> js_error + NetworkGraph" where
  "buildCustomEINNetwork toLowerCase toUpperCase dataset centralEIN =
     (case map_of (ds_foundations dataset) centralEIN of
        None \<Rightarrow> Inl (Error (str ''Foundation with EIN '' @ centralEIN @ str '' not found in dataset''))
      | Some centralFoundation \<Rightarrow>
          let nameIndex = buildNameToEINIndex toLowerCase dataset;
              grantsByRecipient =
                groupByRecipient toLowerCase toUpperCase dataset nameIndex (f_grantsGiven centralFoundation) [];
              st = recipientsLoop dataset centralEIN (f_name centralFoundation) grantsByRecipient
                     (pushNode (centralNode centralEIN centralFoundation) ([], [], []))
          in Inr \<lparr>ng_nodes = fst st, ng_links = fst (snd st)\<rparr>)"

text \<open>
  The shape the claims speak of. \<open>fromCentral\<close>: the node is the target of a link from
  the central id. \<open>viaGrantee\<close>: the node is the source of a link whose target is the
  target of a link from the central id. \<open>egoGraph\<close>: every node that is not marked central
  is reached in this way, a grantee node in one hop and a funder node in two, and both
  ends of every link are ids of nodes.
\<close>

definition fromCentral :: "Link list \<Rightarrow> jstring \<Rightarrow> jstring \<Rightarrow> bool" where
  "fromCentral links centralId nodeId =
     list_ex (\<lambda>l. l_source l = centralId \<and> l_target l = nodeId) links"

definition viaGrantee :: "Link list \<Rightarrow> jstring \<Rightarrow> jstring \<Rightarrow> bool" where
  "viaGrantee links centralId nodeId =
     list_ex (\<lambda>l. l_source l = nodeId \<and> fromCentral links centralId (l_target l)) links"

definition reached :: "Link list \<Rightarrow> jstring \<Rightarrow> Node \<Rightarrow> bool" where
  "reached links centralId n =
     (case n_type n of
        Grantee \<Rightarrow> fromCentral links centralId (n_id n)
      | Funder \<Rightarrow> viaGrantee links centralId (n_id n))"

definition egoGraph :: "jstring \<Rightarrow> NetworkGraph \<Rightarrow> bool" where
  "egoGraph centralId g =
     (list_all (\<lambda>n. n_central n = Some True \<or> reached (ng_links g) centralId n) (ng_nodes g)
      \<and> list_all (\<lambda>l. l_source l \<in> set (map n_id (ng_nodes g)) \<and>
                       l_target l \<in> set (map n_id (ng_nodes g))) (ng_links g))"

text \<open>
  \<open>oneCentral\<close>: the first node is marked central and no other node is.
  \<open>appendsPlain\<close>: a list of nodes is extended by nodes that carry no central flag.
  \<open>stateInv\<close>: the invariant of a builder's state between two steps of a loop:
  \<open>addedNodes\<close> holds the ids of the nodes, the central id among them, every node that is
  not marked central is reached, and both ends of every link are ids of nodes.
\<close>

definition oneCentral :: "NetworkGraph \<Rightarrow> bool" where
  "oneCentral g =
     (case ng_nodes g of
        [] \<Rightarrow> False
      | central # others \<Rightarrow>
          n_central central = Some True \<and> list_all (\<lambda>n. n_central n \<noteq> Some True) others)"

definition appendsPlain :: "Node list \<Rightarrow> Node list \<Rightarrow> bool" where
  "appendsPlain old new = (\<exists>ns. new = old @ ns \<and> list_all (\<lambda>n. n_central n = None) ns)"

definition stateInv :: "jstring \<Rightarrow> builder_state \<Rightarrow> bool" where
  "stateInv centralId st =
     (case st of (nodes, links, addedNodes) \<Rightarrow>
        set addedNodes = set (map n_id nodes) \<and> centralId \<in> set addedNodes \<and>
        list_all (\<lambda>n. n_central n = Some True \<or> reached links centralId n) nodes \<and>
        list_all (\<lambda>l. l_source l \<in> set addedNodes \<and> l_target l \<in> set addedNodes) links)"

text \<open>
  \<open>keyedByRecipient\<close>: every grant of a group resolves to the key of the group.
\<close>

definition keyedByRecipient ::
  "(jstring \<Rightarrow> jstring) \<Rightarrow> (jstring \<Rightarrow> jstring) \<Rightarrow> CompleteDataset \<Rightarrow> jstring list dict
     \<Rightarrow> Grant list dict \<Rightarrow> bool" where
  "keyedByRecipient toLowerCase toUpperCase ds idx m =
     list_all (\<lambda>e. list_all (\<lambda>g. resolveRecipient toLowerCase toUpperCase ds idx g = fst e) (snd e)) m"

text \<open>
  All \<open>grantsReceived\<close> entries of a dictionary of organizations, as a multiset, and the
  keys of a name index that are not placeholder keys.
\<close>

definition receivedEntries :: "Organization dict \<Rightarrow> ReceivedGrant multiset" where
  "receivedEntries os = sum_list (map (\<lambda>p. mset (o_grantsReceived (snd p))) os)"

definition realKeys :: "jstring list dict \<Rightarrow> jstring set" where
  "realKeys nameIndex =
     {e. \<exists>n ms. map_of nameIndex n = Some ms \<and> e \<in> set ms \<and> \<not> startsWith e (str ''no_ein_'')}"

text \<open>
  The scenario of two batches: foundation F1 grants 1,000 dollars to \<open>Acme Inc\<close> without
  EIN, foundation F2 grants 500 dollars to \<open>ACME\<close> with the EIN E1.
\<close>

definition example_records :: "FunderRecord list" where
  "example_records =
     [\<lparr>fr_funderEIN = Some (str ''F1''), fr_funderName = str ''Fone'',
       fr_grants = [\<lparr>g_recipientEIN = [], g_recipientName = str ''Acme Inc'', g_amount = Num 1000,
                     g_year = Num 2023, g_recipientCity = None, g_recipientState = None,
                     g_recipientZip = None\<rparr>],
       fr_metadata = None\<rparr>,
      \<lparr>fr_funderEIN = Some (str ''F2''), fr_funderName = str ''Ftwo'',
       fr_grants = [\<lparr>g_recipientEIN = str ''E1'', g_recipientName = str ''ACME'', g_amount = Num 500,
                     g_year = Num 2023, g_recipientCity = None, g_recipientState = None,
                     g_recipientZip = None\<rparr>],
       fr_metadata = None\<rparr>]"

definition example_dataset :: CompleteDataset where
  "example_dataset =
     \<lparr>ds_foundations =
        [(str ''F1'', \<lparr>f_ein = str ''F1'', f_name = str ''Fone'',
                   f_grantsGiven = [\<lparr>g_recipientEIN = [], g_recipientName = str ''Acme Inc'',
                                     g_amount = Num 1000, g_year = Num 2023, g_recipientCity = None,
                                     g_recipientState = None, g_recipientZip = None\<rparr>],
                   f_metadata = None\<rparr>),
         (str ''F2'', \<lparr>f_ein = str ''F2'', f_name = str ''Ftwo'',
                   f_grantsGiven = [\<lparr>g_recipientEIN = str ''E1'', g_recipientName = str ''ACME'',
                                     g_amount = Num 500, g_year = Num 2023, g_recipientCity = None,
                                     g_recipientState = None, g_recipientZip = None\<rparr>],
                   f_metadata = None\<rparr>)],
      ds_organizations =
        [(str ''no_ein_acme'', \<lparr>o_ein = str ''no_ein_acme'', o_name = str ''Acme Inc'',
                            o_grantsReceived = [\<lparr>r_funderEIN = str ''F1'', r_funderName = str ''Fone'',
                                                 r_amount = Num 1000, r_year = Num 2023\<rparr>],
                            o_metadata = None\<rparr>),
         (str ''E1'', \<lparr>o_ein = str ''E1'', o_name = str ''ACME'',
                   o_grantsReceived = [\<lparr>r_funderEIN = str ''F2'', r_funderName = str ''Ftwo'',
                                        r_amount = Num 500, r_year = Num 2023\<rparr>],
                   o_metadata = None\<rparr>)],
      ds_metadata = \<lparr>dm_foundationsProcessed = 2, dm_totalGrants = 2, dm_generatedAt = str ''t''\<rparr>\<rparr>"

subsection \<open>Example inputs\<close>

text \<open>
  A parsed 990-PF filing with four entries in its grants section: a business with an
  amount, a person with an empty name, a person with the amount 0, and a person whose
  amount stands in the \<open>Amount\<close> field.
\<close>

definition example_filing :: document where
  "example_filing =
     Some (str ''Return'', Elem
       [(str ''ReturnHeader'',
           [Elem [(str ''TaxYr'', [Text (str ''2022'')]),
                  (str ''Filer'',
                     [Elem [(str ''EIN'', [Text (str ''111111111'')]),
                            (str ''BusinessName'', [Elem [(str ''BusinessNameLine1Txt'', [Text (str ''F One'')])]])]])]]),
        (str ''ReturnData'',
           [Elem [(str ''IRS990PF'',
              [Elem [(str ''SupplementaryInformationGrp'',
                 [Elem [(str ''GrantOrContributionPdDurYrGrp'',
                    [Elem [(str ''RecipientBusinessName'', [Elem [(str ''BusinessNameLine1Txt'', [Text (str ''Acme Inc'')])]]),
                           (str ''Amt'', [Text (str ''1000'')])],
                     Elem [(str ''RecipientPersonNm'', [Text []]), (str ''Amt'', [Text (str ''500'')])],
                     Elem [(str ''RecipientPersonNm'', [Text (str ''Bob'')]), (str ''Amt'', [Text (str ''0'')])],
                     Elem [(str ''RecipientPersonNm'', [Text (str ''Eve'')]), (str ''Amount'', [Text (str ''25.5'')])]])]])]])]])])"

definition example_grant :: ParsedGrant where
  "example_grant =
     \<lparr>pg_recipientEIN = Text [], pg_recipientName = Text (str ''Acme Inc''), pg_amount = Num 1000,
      pg_year = Num 2022, pg_recipientCity = Text [], pg_recipientState = Text [],
      pg_recipientZip = Text []\<rparr>"

definition example_result :: PFResult where
  "example_result =
     \<lparr>pf_funderEIN = Some (Text (str ''111111111'')),
      pf_funderName = Text (str ''F One''),
      pf_grants =
        [example_grant,
         \<lparr>pg_recipientEIN = Text [], pg_recipientName = Text (str ''Eve''), pg_amount = Num (51 / 2),
          pg_year = Num 2022, pg_recipientCity = Text [], pg_recipientState = Text [],
          pg_recipientZip = Text []\<rparr>],
      pf_metadata =
        \<lparr>fm_address = None, fm_city = None, fm_state = None, fm_assets = Num 0, fm_revenue = Num 0\<rparr>\<rparr>"

text \<open>
  One grant without recipient EIN; the dataset built from the one filing that holds it,
  with the network around its foundation; and the dataset of the two-batch scenario after
  consolidation, with the network around F1.
\<close>

definition acme_grant :: Grant where
  "acme_grant =
     \<lparr>g_recipientEIN = [], g_recipientName = str ''Acme Inc'', g_amount = Num 1000, g_year = Num 2023,
      g_recipientCity = None, g_recipientState = None, g_recipientZip = None\<rparr>"

definition placeholder_dataset :: CompleteDataset where
  "placeholder_dataset =
     \<lparr>ds_foundations =
        [(str ''F1'', \<lparr>f_ein = str ''F1'', f_name = str ''Fone'', f_grantsGiven = [acme_grant], f_metadata = None\<rparr>)],
      ds_organizations =
        [(str ''no_ein_acme'', \<lparr>o_ein = str ''no_ein_acme'', o_name = str ''Acme Inc'',
                            o_grantsReceived = [\<lparr>r_funderEIN = str ''F1'', r_funderName = str ''Fone'',
                                                 r_amount = Num 1000, r_year = Num 2023\<rparr>],
                            o_metadata = None\<rparr>)],
      ds_metadata = \<lparr>dm_foundationsProcessed = 1, dm_totalGrants = 1, dm_generatedAt = str ''t''\<rparr>\<rparr>"

definition placeholder_network :: NetworkGraph where
  "placeholder_network =
     \<lparr>ng_nodes =
        [\<lparr>n_id = str ''F1'', n_name = str ''Fone'', n_type = Funder, n_central = Some True, n_amount = None,
          n_metadata = None, n_grantsReceived = None, n_grantsGiven = None\<rparr>,
         \<lparr>n_id = str ''no_ein_acme'', n_name = str ''Acme Inc'', n_type = Grantee, n_central = None,
          n_amount = Some (Num 1000), n_metadata = None,
          n_grantsReceived = Some [\<lparr>r_funderEIN = str ''F1'', r_funderName = str ''Fone'',
                                    r_amount = Num 1000, r_year = Num 2023\<rparr>],
          n_grantsGiven = None\<rparr>],
      ng_links =
        [\<lparr>l_source = str ''F1'', l_target = str ''no_ein_acme'', l_amount = Num 1000, l_type = HlfGrant,
          l_year = Num 2023\<rparr>]\<rparr>"

definition consolidated_dataset :: CompleteDataset where
  "consolidated_dataset =
     \<lparr>ds_foundations = ds_foundations example_dataset,
      ds_organizations =
        [(str ''E1'', \<lparr>o_ein = str ''E1'', o_name = str ''ACME'',
                   o_grantsReceived = [\<lparr>r_funderEIN = str ''F2'', r_funderName = str ''Ftwo'',
                                        r_amount = Num 500, r_year = Num 2023\<rparr>,
                                       \<lparr>r_funderEIN = str ''F1'', r_funderName = str ''Fone'',
                                        r_amount = Num 1000, r_year = Num 2023\<rparr>],
                   o_metadata = None\<rparr>)],
      ds_metadata = ds_metadata example_dataset\<rparr>"

definition consolidated_network :: NetworkGraph where
  "consolidated_network =
     \<lparr>ng_nodes =
        [\<lparr>n_id = str ''F1'', n_name = str ''Fone'', n_type = Funder, n_central = Some True, n_amount = None,
          n_metadata = None, n_grantsReceived = None, n_grantsGiven = None\<rparr>,
         \<lparr>n_id = str ''E1'', n_name = str ''ACME'', n_type = Grantee, n_central = None,
          n_amount = Some (Num 1000), n_metadata = None,
          n_grantsReceived = Some [\<lparr>r_funderEIN = str ''F2'', r_funderName = str ''Ftwo'',
                                    r_amount = Num 500, r_year = Num 2023\<rparr>,
                                   \<lparr>r_funderEIN = str ''F1'', r_funderName = str ''Fone'',
                                    r_amount = Num 1000, r_year = Num 2023\<rparr>],
          n_grantsGiven = None\<rparr>,
         \<lparr>n_id = str ''F2'', n_name = str ''Ftwo'', n_type = Funder, n_central = None, n_amount = None,
          n_metadata = None, n_grantsReceived = None,
          n_grantsGiven = Some [\<lparr>g_recipientEIN = str ''E1'', g_recipientName = str ''ACME'',
                                 g_amount = Num 500, g_year = Num 2023, g_recipientCity = None,
                                 g_recipientState = None, g_recipientZip = None\<rparr>]\<rparr>],
      ng_links =
        [\<lparr>l_source = str ''F1'', l_target = str ''E1'', l_amount = Num 1000, l_type = HlfGrant,
          l_year = Num 2023\<rparr>,
         \<lparr>l_source = str ''F2'', l_target = str ''E1'', l_amount = Num 500, l_type = OtherFunder,
          l_year = Num 2023\<rparr>]\<rparr>"

text \<open>
  A filing whose filer EIN is the text \<open>A"B\<close> (three characters, the second a double
  quote) and that lists no grant, and the dataset built from it.
\<close>

definition quoted_key_records :: "FunderRecord list" where
  "quoted_key_records =
     [\<lparr>fr_funderEIN = Some (str ''A'' @ [0x22] @ str ''B''), fr_funderName = str ''Fone'',
       fr_grants = [], fr_metadata = None\<rparr>]"

definition quoted_key_dataset :: CompleteDataset where
  "quoted_key_dataset =
     \<lparr>ds_foundations =
        [(str ''A'' @ [0x22] @ str ''B'',
          \<lparr>f_ein = str ''A'' @ [0x22] @ str ''B'', f_name = str ''Fone'', f_grantsGiven = [],
           f_metadata = None\<rparr>)],
      ds_organizations = [],
      ds_metadata = \<lparr>dm_foundationsProcessed = 1, dm_totalGrants = 0, dm_generatedAt = str ''t''\<rparr>\<rparr>"

section \<open>Properties\<close>

subsection \<open>Rounding to a double\<close>

lemmas double_defs = toDouble_def binaryExponent_def expUp.simps expDown.simps roundTiesToEven_def

text \<open>
  Underflow: a positive value up to \<open>2^-1075\<close>, half of the least positive double, is
  rounded to 0.
\<close>

lemma expDown_floor: "- 1022 \<le> e \<Longrightarrow> x < 2 powi (- 1022) \<Longrightarrow> expDown e x = - 1022"
proof (induction e x rule: expDown.induct)
  case (1 e x)
  show ?case
  proof (cases "e = - 1022")
    case True
    then show ?thesis by (subst expDown.simps) simp
  next
    case False
    with 1(2) have lt: "- 1022 < e" by simp
    then have "(2::real) powi (- 1022) \<le> 2 powi e"
      by (intro power_int_increasing) auto
    with 1(3) have "\<not> 2 powi e \<le> x" by simp
    with lt 1 show ?thesis
      by (subst expDown.simps) auto
  qed
qed

lemma roundTiesToEven_small: "0 \<le> y \<Longrightarrow> y \<le> 1 / 2 \<Longrightarrow> roundTiesToEven y = 0"
proof -
  assume y: "0 \<le> y" "y \<le> 1 / 2"
  then have "\<lfloor>y\<rfloor> = 0" by (simp add: floor_eq_iff)
  with y show ?thesis by (simp add: roundTiesToEven_def Let_def)
qed

lemma toDouble_underflow:
  assumes "0 < x" "x \<le> 2 powi (- 1075)"
  shows "toDouble x = Num 0"
proof -
  define q :: real where "q = 2 powi (- 1074)"
  have "(2::real) powi (- 1074 - 1) = 2 powi (- 1074) / 2 powi 1"
    by (rule power_int_diff) simp
  then have q: "0 < q" "2 powi (- 1075) = q / 2"
    by (simp_all add: q_def)
  have "(2::real) powi (- 1075) < 2 powi (- 1022)" "(2::real) powi (- 1022) \<le> 2 powi 0"
    by (intro power_int_strict_increasing power_int_increasing; simp)+
  with assms have small: "x < 2 powi (- 1022)" "x < 1" by simp_all
  with assms(1) have e: "binaryExponent \<bar>x\<bar> = - 1022"
    by (simp add: binaryExponent_def expDown_floor)
  from assms q have "0 \<le> x / q" "x / q \<le> 1 / 2"
    by (simp_all add: field_simps)
  then have "roundTiesToEven (x / q) = 0" by (rule roundTiesToEven_small)
  moreover have "\<bar>x\<bar> = x" using assms(1) by simp
  moreover have "2 powi (binaryExponent x - 52) = q" using e \<open>\<bar>x\<bar> = x\<close> by (simp add: q_def)
  ultimately have r: "roundTiesToEven (\<bar>x\<bar> / 2 powi (binaryExponent \<bar>x\<bar> - 52)) = 0"
    by (simp only:)
  show ?thesis
    unfolding toDouble_def Let_def r using assms(1) by simp
qed

subsection \<open>extractZip\<close>

text \<open>
  C8 (as stated, refuted). The claim says that an extraction which left at least one file
  in the destination directory is never a hard failure. When \<open>unzip\<close> exits with status 2
  the callback rejects without looking at the directory: here three files are present and
  the promise still rejects.
\<close>

theorem extractZip_status2_counterexample:
  "dest_exists \<lparr>mkdir_error = None, exec_error = Some \<lparr>code = ExitStatus 2, message = str ''exit 2''\<rparr>,
        stderr = str ''warning'', dest_exists = True, dest_entries = [str ''a.xml'', str ''b.xml'', str ''c.xml'']\<rparr>
   \<and> length (dest_entries \<lparr>mkdir_error = None, exec_error = Some \<lparr>code = ExitStatus 2, message = str ''exit 2''\<rparr>,
        stderr = str ''warning'', dest_exists = True, dest_entries = [str ''a.xml'', str ''b.xml'', str ''c.xml'']\<rparr>) = 3
   \<and> extractZip \<lparr>mkdir_error = None, exec_error = Some \<lparr>code = ExitStatus 2, message = str ''exit 2''\<rparr>,
        stderr = str ''warning'', dest_exists = True, dest_entries = [str ''a.xml'', str ''b.xml'', str ''c.xml'']\<rparr>
     = Inl (str ''Unzip failed: exit 2'' @ [0x0A] @ str ''warning'')"
  by (simp add: extractZip_def)

text \<open>
  C8 (amended). \<open>extractZip\<close> resolves exactly when the directory could be created and
  either \<open>unzip\<close> reported no error, or it exited with status 1 (warnings) or 3 (severe
  errors) and the destination directory exists and is not empty. With any other error
  (status 2 included) it rejects whatever was extracted.
\<close>

theorem extractZip_resolves_iff:
  "(extractZip run = Inr ()) =
     (mkdir_error run = None \<and>
      (exec_error run = None \<or>
       (\<exists>e. exec_error run = Some e \<and> (code e = ExitStatus 1 \<or> code e = ExitStatus 3) \<and>
            dest_exists run \<and> dest_entries run \<noteq> [])))"
  by (auto simp: extractZip_def split: option.splits)

theorem extractZip_resolves_iff_witness:
  "extractZip \<lparr>mkdir_error = None, exec_error = Some \<lparr>code = ExitStatus 3, message = str ''exit 3''\<rparr>,
        stderr = [], dest_exists = True, dest_entries = [str ''a.xml'']\<rparr> = Inr ()"
  using extractZip_resolves_iff [of "\<lparr>mkdir_error = None, exec_error = Some \<lparr>code = ExitStatus 3, message = str ''exit 3''\<rparr>,
        stderr = [], dest_exists = True, dest_entries = [str ''a.xml'']\<rparr>"]
  by simp

subsection \<open>loadHLFGrantsFromExcel\<close>

lemma parseAmount_not_NaN: "parseAmount a \<noteq> NaN"
  by (simp add: parseAmount_def Let_def num_truthy_def)

lemma not_num_le_iff_less: "n \<noteq> NaN \<Longrightarrow> (\<not> num_le n (Num b)) = num_less (Num b) n"
  by (cases n) auto

lemma filterRows_kept:
  "filterRows year rows = Inr kept \<Longrightarrow> kept = filter (\<lambda>r. keepRow year r = Inr True) rows"
  by (induction rows arbitrary: kept) (auto split: sum.splits if_splits)

text \<open>
  C9 (as stated, refuted). The claim keeps a single-name row of 10,000 dollars or more. The
  filter drops a single-name row when its parsed amount is at most 10,000: the row
  \<open>Tara\<close> with the amount 10000 on the sheet \<open>2023\<close> is not below 10,000 and is excluded,
  so the loader returns no grant.
\<close>

theorem keepRow_10000_counterexample:
  "length (split_ws (trim (str ''Tara''))) = 1
   \<and> parseAmount (rowAmount 2023 [(str ''Organization'', CellStr (str ''Tara'')), (str ''2023 Amount'', CellNum (Num 10000))])
       = Num 10000
   \<and> \<not> num_less (Num 10000) (Num 10000)
   \<and> keepRow 2023 [(str ''Organization'', CellStr (str ''Tara'')), (str ''2023 Amount'', CellNum (Num 10000))] = Inr False
   \<and> loadHLFGrantsFromExcel
        (Inr [(str ''2023'', [[(str ''Organization'', CellStr (str ''Tara'')), (str ''2023 Amount'', CellNum (Num 10000))]])])
       = Inr []"
  by (simp add: loadHLFGrantsFromExcel_def sheetYearMap_def keepRow_def rowOrganization_def
      rowAmount_def cell_truthy_def num_truthy_def parseAmount_def decimal.simps trim_def
      is_space_def)

text \<open>
  C9 (amended). A row whose organization is a single word (and is not one of the two
  section rows, and has an amount) is retained exactly when its parsed amount is greater
  than 10,000; it is excluded when the amount is 10,000 or less. Rows named
  \<open>Discretionary Grants\<close> or \<open>Mini grants for Storytelling\<close> and rows without an
  organization or without an amount are always excluded. The rows a sheet contributes are
  the rows for which the callback answers true, in their order.
\<close>

theorem keepRow_single_name_rule:
  "(\<forall>name. rowOrganization row = CellStr name \<and> name \<noteq> [] \<and> name \<noteq> str ''Discretionary Grants'' \<and>
        name \<noteq> str ''Mini grants for Storytelling'' \<and> cell_truthy (rowAmount year row) \<and>
        length (split_ws (trim name)) = 1 \<longrightarrow>
      keepRow year row = Inr (num_less (Num 10000) (parseAmount (rowAmount year row))))
   \<and> (rowOrganization row = CellStr (str ''Discretionary Grants'') \<or>
      rowOrganization row = CellStr (str ''Mini grants for Storytelling'') \<or>
      \<not> cell_truthy (rowOrganization row) \<or> \<not> cell_truthy (rowAmount year row) \<longrightarrow>
      keepRow year row = Inr False)
   \<and> (\<forall>kept. filterRows year rows = Inr kept \<longrightarrow>
        kept = filter (\<lambda>r. keepRow year r = Inr True) rows)"
  using not_num_le_iff_less[OF parseAmount_not_NaN, of "rowAmount year row" 10000]
  by (auto simp: keepRow_def Let_def cell_truthy_def dest: filterRows_kept)

theorem keepRow_single_name_rule_witness:
  "rowOrganization [(str ''Organization'', CellStr (str ''Tara'')), (str ''2023 Amount'', CellStr (str ''$10,001''))] = CellStr (str ''Tara'')
   \<and> cell_truthy (rowAmount 2023 [(str ''Organization'', CellStr (str ''Tara'')), (str ''2023 Amount'', CellStr (str ''$10,001''))])
   \<and> length (split_ws (trim (str ''Tara''))) = 1
   \<and> parseAmount (rowAmount 2023 [(str ''Organization'', CellStr (str ''Tara'')), (str ''2023 Amount'', CellStr (str ''$10,001''))])
       = Num 10001
   \<and> keepRow 2023 [(str ''Organization'', CellStr (str ''Tara'')), (str ''2023 Amount'', CellStr (str ''$10,001''))] = Inr True
   \<and> filterRows 2023 [[(str ''Organization'', CellStr (str ''Tara'')), (str ''2023 Amount'', CellStr (str ''$10,001''))]]
       = Inr [[(str ''Organization'', CellStr (str ''Tara'')), (str ''2023 Amount'', CellStr (str ''$10,001''))]]"
proof -
  let ?row = "[(str ''Organization'', CellStr (str ''Tara'')), (str ''2023 Amount'', CellStr (str ''$10,001''))]"
  have org: "rowOrganization ?row = CellStr (str ''Tara'')"
    by (simp add: rowOrganization_def cell_truthy_def)
  have amt: "rowAmount 2023 ?row = CellStr (str ''$10,001'')"
    by (simp add: rowAmount_def cell_truthy_def decimal.simps)
  have single: "length (split_ws (trim (str ''Tara''))) = 1"
    by (simp add: trim_def is_space_def)
  have parsed: "parseAmount (CellStr (str ''$10,001'')) = Num 10001"
    by (simp add: parseAmount_def parseFloat_def parseUnsigned_def double_defs is_space_def is_digit_def
        digits_value_def scale10_def exponent_part_def num_truthy_def)
  have keep: "keepRow 2023 ?row = Inr True"
    using keepRow_single_name_rule [of ?row 2023 "[?row]"] org amt single parsed
    by (simp add: cell_truthy_def)
  then have "filterRows 2023 [?row] = Inr [?row]"
    by simp
  with org amt single parsed keep show ?thesis
    by (simp add: cell_truthy_def)
qed

subsection \<open>The filing parsers\<close>

lemma grantsLoop_eq:
  "grantsLoop taxYear grantSections acc =
     acc @ map (recipientGrant taxYear)
       (filter (\<lambda>recipient. xml_truthy (Some (recipientNameOf recipient)) \<and>
                   num_less (Num 0) (recipientAmountOf recipient)) grantSections)"
  by (induction grantSections arbitrary: acc) auto

lemma grantsLoop_retained:
  "g \<in> set (grantsLoop taxYear grantSections []) \<Longrightarrow>
     num_less (Num 0) (pg_amount g) \<and> xml_truthy (Some (pg_recipientName g)) \<and>
     pg_recipientName g \<noteq> Text []"
  by (auto simp: grantsLoop_eq recipientGrant_def Let_def xml_truthy_def)

lemma pfResultOf_grants:
  "\<exists>taxYear. pf_grants (pfResultOf returnData header year) =
      grantsLoop taxYear (grantSectionsOf (child returnData (str ''IRS990PF''))) []"
  by (simp add: pfResultOf_def Let_def) blast

lemma processXmlFile_Some:
  "processXmlFile readFileSync parseStringPromise filePath year = Inr (Some result) \<Longrightarrow>
     \<exists>returnData header. result = pfResultOf returnData header year"
  by (auto simp: processXmlFile_def processXmlFile_try_def Let_def split: sum.splits if_splits)

text \<open>
  C4. Every grant in the list \<open>processXmlFile\<close> returns has an amount greater than 0 and
  a recipient name that is truthy, hence not the empty string. The list is made of exactly
  the entries of the grants section that pass both checks, in their order: an entry that
  fails one is dropped, and no default is put in its place.
\<close>

theorem processXmlFile_retained_grants:
  "(\<forall>result g. processXmlFile readFileSync parseStringPromise filePath year = Inr (Some result) \<and>
        g \<in> set (pf_grants result) \<longrightarrow>
      num_less (Num 0) (pg_amount g) \<and> xml_truthy (Some (pg_recipientName g)) \<and>
      pg_recipientName g \<noteq> Text [])
   \<and> grantsLoop taxYear grantSections [] =
       map (recipientGrant taxYear)
         (filter (\<lambda>recipient. xml_truthy (Some (recipientNameOf recipient)) \<and>
                     num_less (Num 0) (recipientAmountOf recipient)) grantSections)"
proof -
  have "num_less (Num 0) (pg_amount g) \<and> xml_truthy (Some (pg_recipientName g)) \<and>
        pg_recipientName g \<noteq> Text []"
    if res: "processXmlFile readFileSync parseStringPromise filePath year = Inr (Some result)"
      and g: "g \<in> set (pf_grants result)" for result g
  proof -
    from processXmlFile_Some [OF res] obtain returnData header
      where "result = pfResultOf returnData header year" by blast
    with pfResultOf_grants [of returnData header year] obtain ty
      where "pf_grants result = grantsLoop ty (grantSectionsOf (child returnData (str ''IRS990PF''))) []"
      by auto
    with g grantsLoop_retained show ?thesis by metis
  qed
  then show ?thesis
    by (simp add: grantsLoop_eq)
qed

lemmas xml_defs = processXmlFile_def processXmlFile_try_def pfResultOf_def grantSectionsOf_def
  dataReturn_def child_def first_def getOpt_def get_def xml_truthy_def orElse_def orDefault_def
  toString_def startsWith_def recipientNameOf_def recipientAmountOf_def recipientGrant_def

lemma example_filing_parsed:
  "processXmlFile (\<lambda>p. Inr (str ''<Return><IRS990PF>'')) (\<lambda>c. Inr example_filing) (str ''f.xml'') 2023
     = Inr (Some example_result)"
  by (simp add: xml_defs example_filing_def example_result_def example_grant_def Let_def
      parseFloat_def parseUnsigned_def parseInt_def double_defs is_space_def is_digit_def digits_value_def
      scale10_def exponent_part_def)

theorem processXmlFile_retained_grants_witness:
  "processXmlFile (\<lambda>p. Inr (str ''<Return><IRS990PF>'')) (\<lambda>c. Inr example_filing) (str ''f.xml'') 2023
     = Inr (Some example_result)
   \<and> example_grant \<in> set (pf_grants example_result)
   \<and> length (pf_grants example_result) = 2
   \<and> num_less (Num 0) (pg_amount example_grant)
   \<and> pg_recipientName example_grant \<noteq> Text []"
proof -
  have g: "example_grant \<in> set (pf_grants example_result)"
    and len: "length (pf_grants example_result) = 2"
    by (simp_all add: example_result_def)
  from processXmlFile_retained_grants
         [of "\<lambda>p. Inr (str ''<Return><IRS990PF>'')" "\<lambda>c. Inr example_filing" "str ''f.xml''" 2023 NaN "[]"]
       example_filing_parsed g
  have "num_less (Num 0) (pg_amount example_grant) \<and> pg_recipientName example_grant \<noteq> Text []"
    by blast
  with example_filing_parsed g len show ?thesis by blast
qed

text \<open>
  C6. Neither parser lets an exception escape: each always returns a value, and whenever
  the body of its \<open>try\<close> block raises (the file cannot be read, the XML parser rejects
  the text, the parsed document is \<open>null\<close>) the value is \<open>null\<close>.
\<close>

theorem parsers_never_raise:
  "(\<exists>r. processXmlFile readFileSync parseStringPromise filePath year = Inr r)
   \<and> (\<exists>r. parseXML990File readFileSync parseStringPromise filePath year = Inr r)
   \<and> ((\<exists>e. processXmlFile_try readFileSync parseStringPromise filePath year = Inl e) \<longrightarrow>
        processXmlFile readFileSync parseStringPromise filePath year = Inr None)
   \<and> ((\<exists>e. parseXML990File_try readFileSync parseStringPromise filePath year = Inl e) \<longrightarrow>
        parseXML990File readFileSync parseStringPromise filePath year = Inr None)
   \<and> ((\<exists>e. readFileSync filePath = Inl e) \<longrightarrow>
        processXmlFile readFileSync parseStringPromise filePath year = Inr None \<and>
        parseXML990File readFileSync parseStringPromise filePath year = Inr None)"
  by (auto simp: processXmlFile_def parseXML990File_def processXmlFile_try_def
      parseXML990File_try_def split: sum.splits)

theorem parsers_never_raise_witness:
  "processXmlFile_try (\<lambda>p. Inr (str ''<Return><IRS990PF>'')) (\<lambda>c. Inl (Error (str ''Unclosed root tag''))) (str ''f.xml'') 2023
     = Inl (Error (str ''Unclosed root tag''))
   \<and> processXmlFile (\<lambda>p. Inr (str ''<Return><IRS990PF>'')) (\<lambda>c. Inl (Error (str ''Unclosed root tag''))) (str ''f.xml'') 2023
     = Inr None
   \<and> parseXML990File_try (\<lambda>p. Inr (str ''<Return><IRS990>'')) (\<lambda>c. Inr None) (str ''f.xml'') 2023
     = Inl (TypeError (str ''Cannot read properties of null''))
   \<and> parseXML990File (\<lambda>p. Inr (str ''<Return><IRS990>'')) (\<lambda>c. Inr None) (str ''f.xml'') 2023 = Inr None"
proof -
  have a: "processXmlFile_try (\<lambda>p. Inr (str ''<Return><IRS990PF>'')) (\<lambda>c. Inl (Error (str ''Unclosed root tag''))) (str ''f.xml'') 2023
     = Inl (Error (str ''Unclosed root tag''))"
    by (simp add: processXmlFile_try_def startsWith_def)
  have b: "parseXML990File_try (\<lambda>p. Inr (str ''<Return><IRS990>'')) (\<lambda>c. Inr None) (str ''f.xml'') 2023
     = Inl (TypeError (str ''Cannot read properties of null''))"
    by (simp add: parseXML990File_try_def startsWith_def dataReturn_def)
  from a b
    parsers_never_raise [of "\<lambda>p. Inr (str ''<Return><IRS990PF>'')" "\<lambda>c. Inl (Error (str ''Unclosed root tag''))" "str ''f.xml''" 2023]
    parsers_never_raise [of "\<lambda>p. Inr (str ''<Return><IRS990>'')" "\<lambda>c. Inr None" "str ''f.xml''" 2023]
  show ?thesis by simp
qed

subsection \<open>Dictionaries\<close>

lemma keys_dict_put: "fst ` set (dict_put k v d) = insert k (fst ` set d)"
  by (induction d) auto

lemma map_of_dict_put: "map_of (dict_put k v d) = (map_of d)(k \<mapsto> v)"
  by (induction d) (auto simp: fun_eq_iff)

lemma distinct_dict_put: "distinct (map fst d) \<Longrightarrow> distinct (map fst (dict_put k v d))"
  by (induction d) (auto simp: keys_dict_put)

lemma sum_dict_put:
  "sum_list (map (\<lambda>p. h (snd p)) (dict_put k v d)) + (case map_of d k of None \<Rightarrow> 0 | Some old \<Rightarrow> h old)
     = sum_list (map (\<lambda>p. h (snd p)) d) + (h v :: 'a::comm_monoid_add)"
  by (induction d) (auto simp: ac_simps)

lemma keys_dict_delete: "fst ` set (dict_delete k d) = fst ` set d - {k}"
  by (auto simp: dict_delete_def)

lemma distinct_dict_delete: "distinct (map fst d) \<Longrightarrow> distinct (map fst (dict_delete k d))"
  by (simp add: dict_delete_def distinct_map_filter)

lemma map_of_dict_delete: "map_of (dict_delete k d) = (map_of d)(k := None)"
  by (induction d) (auto simp: dict_delete_def fun_eq_iff)

lemma sum_dict_delete:
  "distinct (map fst d) \<Longrightarrow>
   sum_list (map (\<lambda>p. h (snd p)) (dict_delete k d)) + (case map_of d k of None \<Rightarrow> 0 | Some old \<Rightarrow> h old)
     = (sum_list (map (\<lambda>p. h (snd p)) d) :: 'a::comm_monoid_add)"
proof (induction d)
  case Nil
  then show ?case by (simp add: dict_delete_def)
next
  case (Cons p d)
  show ?case
  proof (cases "fst p = k")
    case True
    with Cons.prems have "k \<notin> fst ` set d" by auto
    then have "dict_delete k d = d" "map_of d k = None"
      by (auto simp: dict_delete_def filter_id_conv map_of_eq_None_iff)
    with True show ?thesis by (cases p) (simp add: dict_delete_def ac_simps)
  next
    case False
    with Cons show ?thesis by (cases p) (simp add: dict_delete_def ac_simps)
  qed
qed

lemma mset_objectEntries: "mset (objectEntries d) = mset d"
  by (simp add: objectEntries_def)

lemma set_objectEntries: "set (objectEntries d) = set d"
  by (auto simp: objectEntries_def)

lemma length_objectKeys: "length (objectKeys d) = length d"
  using mset_objectEntries [of d] by (metis length_map objectKeys_def size_mset)

subsection \<open>buildBidirectionalDataset\<close>

lemma totalReceived_put_new:
  "map_of os k = None \<Longrightarrow>
     totalReceived (dict_put k v os) = totalReceived os + length (o_grantsReceived v)"
  using sum_dict_put [of "\<lambda>x. length (o_grantsReceived x)" k v os]
  by (simp add: totalReceived_def)

lemma totalReceived_put_old:
  "map_of os k = Some old \<Longrightarrow>
     totalReceived (dict_put k v os) + length (o_grantsReceived old)
       = totalReceived os + length (o_grantsReceived v)"
  using sum_dict_put [of "\<lambda>x. length (o_grantsReceived x)" k v os]
  by (simp add: totalReceived_def)

lemma addGrantsReceived_total:
  "totalReceived (addGrantsReceived toLowerCase fe fn grants os) = totalReceived os + length grants"
proof (induction grants arbitrary: os)
  case Nil
  then show ?case by simp
next
  case (Cons g gs)
  show ?case
  proof (cases "map_of os (recipientKey toLowerCase g)")
    case None
    then show ?thesis
      by (simp add: Let_def Cons.IH totalReceived_put_new)
  next
    case (Some old)
    from totalReceived_put_old [OF Some, of "old\<lparr>o_grantsReceived := o_grantsReceived old @
             [\<lparr>r_funderEIN = fe, r_funderName = fn, r_amount = g_amount g, r_year = g_year g\<rparr>]\<rparr>"]
    show ?thesis
      by (simp add: Let_def Cons.IH Some)
  qed
qed

lemma addGrantsReceived_distinct:
  "distinct (map fst os) \<Longrightarrow> distinct (map fst (addGrantsReceived toLowerCase fe fn grants os))"
  by (induction grants arbitrary: os) (simp_all add: Let_def distinct_dict_put)

lemma buildLoop_counts:
  "buildLoop toLowerCase rs (fs, os, t) = (fs', os', t') \<Longrightarrow>
     totalGiven fs' = totalGiven fs + countedGrants rs \<and>
     totalReceived os' = totalReceived os + countedGrants rs \<and>
     t' = t + countedGrants rs"
proof (induction rs arbitrary: fs os t)
  case Nil
  then show ?case by (simp add: countedGrants_def)
next
  case (Cons r rs)
  show ?case
  proof (cases "fr_funderEIN r = None \<or> fr_funderEIN r = Some []")
    case True
    with Cons.prems have "buildLoop toLowerCase rs (fs, os, t) = (fs', os', t')"
      by (auto split: option.splits)
    from Cons.IH [OF this] True show ?thesis
      by (auto simp: countedGrants_def)
  next
    case False
    then obtain e where e: "fr_funderEIN r = Some e" "e \<noteq> []" by auto
    define f where "f = (case map_of fs e of
                     None \<Rightarrow> \<lparr>f_ein = e, f_name = fr_funderName r, f_grantsGiven = [],
                                f_metadata = fr_metadata r\<rparr>
                   | Some f \<Rightarrow> f)"
    define fs1 where "fs1 = dict_put e (f\<lparr>f_grantsGiven := f_grantsGiven f @ fr_grants r\<rparr>) fs"
    from Cons.prems e have
      "buildLoop toLowerCase rs (fs1, addGrantsReceived toLowerCase e (fr_funderName r) (fr_grants r) os, t + length (fr_grants r))
         = (fs', os', t')"
      by (simp add: Let_def f_def fs1_def)
    from Cons.IH [OF this] have ih:
      "totalGiven fs' = totalGiven fs1 + countedGrants rs"
      "totalReceived os' = totalReceived os + length (fr_grants r) + countedGrants rs"
      "t' = t + length (fr_grants r) + countedGrants rs"
      by (simp_all add: addGrantsReceived_total)
    have "totalGiven fs1 = totalGiven fs + length (fr_grants r)"
    proof (cases "map_of fs e")
      case None
      with sum_dict_put [of "\<lambda>x. length (f_grantsGiven x)" e
              "f\<lparr>f_grantsGiven := f_grantsGiven f @ fr_grants r\<rparr>" fs]
      show ?thesis by (simp add: totalGiven_def fs1_def f_def)
    next
      case (Some old)
      with sum_dict_put [of "\<lambda>x. length (f_grantsGiven x)" e
              "f\<lparr>f_grantsGiven := f_grantsGiven f @ fr_grants r\<rparr>" fs]
      show ?thesis by (simp add: totalGiven_def fs1_def f_def)
    qed
    moreover have "countedGrants (r # rs) = length (fr_grants r) + countedGrants rs"
      using e by (simp add: countedGrants_def)
    ultimately show ?thesis using ih by simp
  qed
qed

lemma buildLoop_distinct:
  "buildLoop toLowerCase rs (fs, os, t) = (fs', os', t') \<Longrightarrow> distinct (map fst fs) \<Longrightarrow> distinct (map fst os) \<Longrightarrow>
     distinct (map fst fs') \<and> distinct (map fst os')"
proof (induction rs arbitrary: fs os t)
  case Nil
  then show ?case by simp
next
  case (Cons r rs)
  show ?case
  proof (cases "fr_funderEIN r = None \<or> fr_funderEIN r = Some []")
    case True
    with Cons.prems have "buildLoop toLowerCase rs (fs, os, t) = (fs', os', t')"
      by (auto split: option.splits)
    from Cons.IH [OF this] Cons.prems show ?thesis by simp
  next
    case False
    then obtain e where e: "fr_funderEIN r = Some e" "e \<noteq> []" by auto
    from Cons.prems(1) e obtain v where
      "buildLoop toLowerCase rs (dict_put e v fs, addGrantsReceived toLowerCase e (fr_funderName r) (fr_grants r) os, t + length (fr_grants r))
         = (fs', os', t')"
      by (simp add: Let_def)
    from Cons.IH [OF this] Cons.prems(2,3) show ?thesis
      by (simp add: distinct_dict_put addGrantsReceived_distinct)
  qed
qed

text \<open>
  C10. In the dataset \<open>buildBidirectionalDataset\<close> returns, \<open>metadata.totalGrants\<close>, the
  sum of \<open>grantsGiven.length\<close> over the foundations and the sum of \<open>grantsReceived.length\<close>
  over the organizations are one number: the number of grants of the records that have a
  non-empty funder EIN. A record without funder EIN adds to none of the three. The keys of
  both dictionaries are distinct, so each sum counts every entry once.
\<close>

theorem buildBidirectionalDataset_counts:
  "dm_totalGrants (ds_metadata (buildBidirectionalDataset toLowerCase now allGrantsData))
     = totalGiven (ds_foundations (buildBidirectionalDataset toLowerCase now allGrantsData))
   \<and> dm_totalGrants (ds_metadata (buildBidirectionalDataset toLowerCase now allGrantsData))
     = totalReceived (ds_organizations (buildBidirectionalDataset toLowerCase now allGrantsData))
   \<and> dm_totalGrants (ds_metadata (buildBidirectionalDataset toLowerCase now allGrantsData))
     = countedGrants allGrantsData
   \<and> distinct (map fst (ds_foundations (buildBidirectionalDataset toLowerCase now allGrantsData)))
   \<and> distinct (map fst (ds_organizations (buildBidirectionalDataset toLowerCase now allGrantsData)))"
proof -
  obtain fs os t where b: "buildLoop toLowerCase allGrantsData ([], [], 0) = (fs, os, t)"
    by (cases "buildLoop toLowerCase allGrantsData ([], [], 0)") auto
  from buildLoop_counts [OF b] buildLoop_distinct [OF b] show ?thesis
    by (simp add: buildBidirectionalDataset_def b totalGiven_def totalReceived_def)
qed


subsection \<open>streamDatasetToFile\<close>

lemmas stream_defs = streamDatasetToFile_def entryChunks_def entryChunk_def objectKeys_def
  objectEntries_def is_array_index_def is_digit_def

lemmas json_defs = valid_json_def json_step_def after_value_def start_value_def json_end_def
  json_ws_def is_hex_def is_digit_def

text \<open>
  The recogniser on small texts: an object with a nested array and an escape in a key is
  accepted; a trailing comma, a number with a leading zero, an unfinished word, two
  values and the empty text are refused.
\<close>

lemma valid_json_accepts:
  "valid_json (str ''{'' @ [0x22] @ str ''a'' @ [0x22] @ str '': [1, -2.5e+3, true, null, {}], ''
               @ [0x22] @ str ''b'' @ [0x5C] @ str ''u00e9'' @ [0x22] @ str '':'' @ [0x22, 0x22]
               @ str ''} '')"
  "valid_json (str '' 0 '')"
  "valid_json (str ''[[],[{}]]'')"
  "valid_json (str ''-0.5E-7'')"
  by (simp_all add: json_defs)

lemma valid_json_refuses:
  "\<not> valid_json (str ''[1,]'')"
  "\<not> valid_json (str ''{,}'')"
  "\<not> valid_json (str ''[01]'')"
  "\<not> valid_json (str ''[1 2]'')"
  "\<not> valid_json (str ''[}'')"
  "\<not> valid_json (str ''nul'')"
  "\<not> valid_json (str ''{} {}'')"
  "\<not> valid_json []"
  by (simp_all add: json_defs)

text \<open>
  With keys of letters and digits the chunks make a valid document; each entry here is
  stringified as \<open>{}\<close>.
\<close>

lemma streamDatasetToFile_plain_keys:
  "valid_json (concat (streamDatasetToFile (\<lambda>f. str ''{}'') (\<lambda>org. str ''{}'') (\<lambda>m. str ''{}'')
                         example_dataset))"
  by (simp add: stream_defs json_defs example_dataset_def)

lemma quoted_key_dataset_built:
  "buildBidirectionalDataset toLowerCase (str ''t'') quoted_key_records = quoted_key_dataset"
  by (simp add: buildBidirectionalDataset_def quoted_key_records_def quoted_key_dataset_def
      objectKeys_def objectEntries_def is_array_index_def is_digit_def)

text \<open>
  C5 (the code breaks the claim). The claim says that the chunks written make a valid
  JSON document for every dataset, keys with arbitrary characters included. The values
  pass through \<open>JSON.stringify\<close>, which escapes them; a key is written between two
  double quotes as it is. For the dataset whose only foundation has the key \<open>A"B\<close> the
  file holds the line \<open>"A"B": ...\<close>: the key string ends at the second quote, \<open>B\<close> stands
  where the colon must follow, and the text is not a JSON document, whatever
  \<open>JSON.stringify\<close> returns for the values.
\<close>

theorem streamDatasetToFile_quote_in_key:
  "concat (streamDatasetToFile stringifyFoundation stringifyOrganization stringifyMetadata
             quoted_key_dataset)
     = str ''{'' @ [0x0A]
       @ [0x22] @ str ''foundations'' @ [0x22] @ str '': {'' @ [0x0A]
       @ [0x22] @ str ''A'' @ [0x22] @ str ''B'' @ [0x22] @ str '': ''
       @ stringifyFoundation
           \<lparr>f_ein = str ''A'' @ [0x22] @ str ''B'', f_name = str ''Fone'', f_grantsGiven = [],
            f_metadata = None\<rparr>
       @ [0x0A]
       @ str ''},'' @ [0x0A]
       @ [0x22] @ str ''organizations'' @ [0x22] @ str '': {'' @ [0x0A]
       @ str ''},'' @ [0x0A]
       @ [0x22] @ str ''metadata'' @ [0x22] @ str '': ''
       @ stringifyMetadata
           \<lparr>dm_foundationsProcessed = 1, dm_totalGrants = 0, dm_generatedAt = str ''t''\<rparr>
       @ [0x0A]
       @ str ''}'' @ [0x0A]
   \<and> \<not> valid_json (concat (streamDatasetToFile stringifyFoundation stringifyOrganization
                               stringifyMetadata quoted_key_dataset))"
  by (simp add: stream_defs quoted_key_dataset_def json_defs)

subsection \<open>The consolidation pass\<close>

lemma size_receivedEntries: "size (receivedEntries os) = totalReceived os"
  by (induction os) (simp_all add: receivedEntries_def totalReceived_def)

lemma receivedEntries_put_old:
  "map_of os k = Some old \<Longrightarrow>
     receivedEntries (dict_put k v os) + mset (o_grantsReceived old)
       = receivedEntries os + mset (o_grantsReceived v)"
  using sum_dict_put [of "\<lambda>x. mset (o_grantsReceived x)" k v os]
  by (simp add: receivedEntries_def)

lemma receivedEntries_delete:
  "distinct (map fst os) \<Longrightarrow> map_of os k = Some old \<Longrightarrow>
     receivedEntries (dict_delete k os) + mset (o_grantsReceived old) = receivedEntries os"
  using sum_dict_delete [of os "\<lambda>x. mset (o_grantsReceived x)" k]
  by (simp add: receivedEntries_def)

lemma distinct_objectKeys: "distinct (map fst d) \<Longrightarrow> distinct (objectKeys d)"
proof -
  have "mset (objectKeys d) = mset (map fst d)"
    by (simp add: objectKeys_def mset_objectEntries)
  then show "distinct (map fst d) \<Longrightarrow> distinct (objectKeys d)"
    by (metis mset_eq_imp_distinct_iff)
qed

lemma set_objectKeys: "set (objectKeys d) = fst ` set d"
  by (simp add: objectKeys_def set_objectEntries)

lemma indexLoop_elems:
  "map_of (indexLoop toLowerCase es idx) n = Some ms \<Longrightarrow> e \<in> set ms \<Longrightarrow>
     e \<in> fst ` set es \<or> (\<exists>ms'. map_of idx n = Some ms' \<and> e \<in> set ms')"
proof (induction es arbitrary: idx)
  case Nil
  then show ?case by simp
next
  case (Cons p es)
  obtain ein org where p: "p = (ein, org)" by (cases p)
  define idx1 where "idx1 = dict_put (normalizeOrgName toLowerCase (o_name org))
        ((case map_of idx (normalizeOrgName toLowerCase (o_name org)) of None \<Rightarrow> [] | Some l \<Rightarrow> l) @ [ein]) idx"
  from Cons.prems(1) have "map_of (indexLoop toLowerCase es idx1) n = Some ms"
    by (simp add: p idx1_def Let_def)
  from Cons.IH [OF this Cons.prems(2)] show ?case
  proof
    assume "e \<in> fst ` set es"
    then show ?thesis by auto
  next
    assume "\<exists>ms'. map_of idx1 n = Some ms' \<and> e \<in> set ms'"
    then show ?thesis
      by (auto simp: idx1_def map_of_dict_put p split: if_splits option.splits)
  qed
qed

lemma buildNameToEINIndex_elems:
  "map_of (buildNameToEINIndex toLowerCase dataset) n = Some ms \<Longrightarrow> e \<in> set ms \<Longrightarrow>
     e \<in> fst ` set (ds_organizations dataset)"
  using indexLoop_elems [of toLowerCase "objectEntries (ds_organizations dataset)" "[]" n ms e]
  by (simp add: buildNameToEINIndex_def set_objectEntries)

lemma consolidateStep_ok:
  assumes d: "distinct (map fst os)"
    and r: "realKeys idx \<subseteq> fst ` set os"
    and pk: "pk \<in> fst ` set os" "startsWith pk (str ''no_ein_'')"
  shows "\<exists>os' c'. consolidateStep toLowerCase idx pk (os, c) = Inr (os', c') \<and>
           receivedEntries os' = receivedEntries os \<and> distinct (map fst os') \<and>
           fst ` set os - {pk} \<subseteq> fst ` set os'"
proof -
  from pk(1) obtain org where org: "map_of os pk = Some org"
    by (metis domD dom_map_of_conv_image_fst)
  show ?thesis
  proof (cases "map_of idx (normalizeOrgName toLowerCase (o_name org))")
    case None
    with org d show ?thesis by (auto simp: consolidateStep_def)
  next
    case (Some matches)
    show ?thesis
    proof (cases "find (\<lambda>ein. \<not> startsWith ein (str ''no_ein_'')) matches")
      case None
      with org d Some show ?thesis by (auto simp: consolidateStep_def)
    next
      case (Some realEIN)
      then have re: "realEIN \<in> set matches" "\<not> startsWith realEIN (str ''no_ein_'')"
        by (auto simp: find_Some_iff)
      with \<open>map_of idx (normalizeOrgName toLowerCase (o_name org)) = Some matches\<close>
      have "realEIN \<in> realKeys idx" by (auto simp: realKeys_def)
      with r obtain realOrg where ro: "map_of os realEIN = Some realOrg"
        by (metis domD dom_map_of_conv_image_fst subsetD)
      from re pk have ne: "realEIN \<noteq> pk" by auto
      from re(1) have len: "length matches > 0" by (cases matches) auto
      show ?thesis
      proof (cases "realEIN = []")
        case True
        with org d Some \<open>map_of idx (normalizeOrgName toLowerCase (o_name org)) = Some matches\<close>
        show ?thesis by (auto simp: consolidateStep_def)
      next
        case False
        define os1 where "os1 = dict_put realEIN
            (realOrg\<lparr>o_grantsReceived := o_grantsReceived realOrg @ o_grantsReceived org\<rparr>) os"
        have step: "consolidateStep toLowerCase idx pk (os, c) = Inr (dict_delete pk os1, c + 1)"
          using org Some \<open>map_of idx (normalizeOrgName toLowerCase (o_name org)) = Some matches\<close> ro ne False len
          by (simp add: consolidateStep_def os1_def)
        have d1: "distinct (map fst os1)"
          using d by (simp add: os1_def distinct_dict_put)
        have m1: "map_of os1 pk = Some org"
          using org ne by (simp add: os1_def map_of_dict_put)
        have "receivedEntries os1 + mset (o_grantsReceived realOrg)
                = receivedEntries os + mset (o_grantsReceived realOrg) + mset (o_grantsReceived org)"
          using receivedEntries_put_old [OF ro, of
              "realOrg\<lparr>o_grantsReceived := o_grantsReceived realOrg @ o_grantsReceived org\<rparr>"]
          by (simp add: os1_def add.assoc)
        then have e1: "receivedEntries os1 = receivedEntries os + mset (o_grantsReceived org)"
          by (metis add.assoc add.commute add_right_cancel)
        from receivedEntries_delete [OF d1 m1] e1
        have "receivedEntries (dict_delete pk os1) = receivedEntries os"
          by simp
        moreover have "distinct (map fst (dict_delete pk os1))"
          using d1 by (rule distinct_dict_delete)
        moreover have "fst ` set os - {pk} \<subseteq> fst ` set (dict_delete pk os1)"
          by (auto simp: keys_dict_delete os1_def keys_dict_put)
        ultimately show ?thesis using step by simp
      qed
    qed
  qed
qed

lemma consolidateLoop_ok:
  assumes "distinct (map fst os)" "realKeys idx \<subseteq> fst ` set os"
    "set todo \<subseteq> fst ` set os" "distinct todo" "\<forall>k\<in>set todo. startsWith k (str ''no_ein_'')"
  shows "\<exists>os' c'. consolidateLoop toLowerCase idx todo (os, c) = Inr (os', c') \<and>
           receivedEntries os' = receivedEntries os \<and> distinct (map fst os')"
  using assms
proof (induction todo arbitrary: os c)
  case Nil
  then show ?case by simp
next
  case (Cons pk rest)
  from Cons.prems have pk: "pk \<in> fst ` set os" "startsWith pk (str ''no_ein_'')" by auto
  from consolidateStep_ok [OF Cons.prems(1,2) pk, of toLowerCase c] obtain os1 c1 where
    s: "consolidateStep toLowerCase idx pk (os, c) = Inr (os1, c1)"
    and e: "receivedEntries os1 = receivedEntries os"
    and d: "distinct (map fst os1)"
    and k: "fst ` set os - {pk} \<subseteq> fst ` set os1"
    by blast
  have "pk \<notin> realKeys idx" using pk(2) by (auto simp: realKeys_def)
  with Cons.prems(2) k have r1: "realKeys idx \<subseteq> fst ` set os1" by blast
  from Cons.prems(3,4) k have t1: "set rest \<subseteq> fst ` set os1" by auto
  from Cons.prems(4,5) have "distinct rest" "\<forall>k\<in>set rest. startsWith k (str ''no_ein_'')" by auto
  from Cons.IH [OF d r1 t1 this, of c1] e s show ?case by auto
qed

text \<open>
  C3. On a dataset whose organization keys are distinct (every object is), the
  consolidation pass ends without an exception and leaves the sum of
  \<open>grantsReceived.length\<close> over all organizations unchanged. More than the count, the
  multiset of all \<open>grantsReceived\<close> entries is unchanged: the entries of a deleted
  placeholder are appended to one real entry, none is duplicated and none is dropped.
\<close>

theorem consolidation_preserves_grants:
  assumes "distinct (map fst (ds_organizations dataset))"
  shows "\<exists>dataset' consolidated.
           consolidatePlaceholders toLowerCase dataset = Inr (dataset', consolidated) \<and>
           totalReceived (ds_organizations dataset') = totalReceived (ds_organizations dataset) \<and>
           receivedEntries (ds_organizations dataset') = receivedEntries (ds_organizations dataset) \<and>
           distinct (map fst (ds_organizations dataset'))"
proof -
  let ?os = "ds_organizations dataset"
  let ?todo = "filter (\<lambda>k. startsWith k (str ''no_ein_'')) (objectKeys ?os)"
  have r: "realKeys (buildNameToEINIndex toLowerCase dataset) \<subseteq> fst ` set ?os"
    by (auto simp: realKeys_def dest: buildNameToEINIndex_elems)
  have t: "set ?todo \<subseteq> fst ` set ?os" "distinct ?todo" "\<forall>k\<in>set ?todo. startsWith k (str ''no_ein_'')"
    using assms by (auto simp: set_objectKeys distinct_objectKeys)
  from consolidateLoop_ok [OF assms r t, of toLowerCase 0] obtain os' c' where
    "consolidateLoop toLowerCase (buildNameToEINIndex toLowerCase dataset) ?todo (?os, 0) = Inr (os', c')"
    "receivedEntries os' = receivedEntries ?os" "distinct (map fst os')"
    by blast
  then show ?thesis
    by (simp add: consolidatePlaceholders_def Let_def flip: size_receivedEntries)
qed

theorem consolidation_preserves_grants_witness:
  "distinct (map fst (ds_organizations example_dataset))
   \<and> totalReceived (ds_organizations example_dataset) = 2
   \<and> (\<exists>dataset' consolidated.
         consolidatePlaceholders asciiLower example_dataset = Inr (dataset', consolidated) \<and>
         totalReceived (ds_organizations dataset') = 2)"
proof -
  have d: "distinct (map fst (ds_organizations example_dataset))"
    by (simp add: example_dataset_def)
  have t: "totalReceived (ds_organizations example_dataset) = 2"
    by (simp add: example_dataset_def totalReceived_def)
  from consolidation_preserves_grants [OF d, of asciiLower] d t show ?thesis
    by auto
qed

subsection \<open>The network builders: the central node\<close>

lemma funderNode_simps [simp]:
  "n_id (funderNode fs grant) = r_funderEIN grant"
  "n_type (funderNode fs grant) = Funder"
  "n_central (funderNode fs grant) = None"
  by (simp_all add: funderNode_def Let_def)

lemma unmatchedNode_simps [simp]:
  "n_id (unmatchedNode toLowerCase ug name grants) = str ''hlf_grantee_'' @ replaceSpaces name"
  "n_type (unmatchedNode toLowerCase ug name grants) = Grantee"
  "n_central (unmatchedNode toLowerCase ug name grants) = None"
  by (simp_all add: unmatchedNode_def)

lemma matchedNode_simps [simp]:
  "n_id (matchedNode orgEIN org grants) = orgEIN"
  "n_type (matchedNode orgEIN org grants) = Grantee"
  "n_central (matchedNode orgEIN org grants) = None"
  by (simp_all add: matchedNode_def)

lemma recipientNode_simps [simp]:
  "n_id (recipientNode ds c cn k grants) = k"
  "n_type (recipientNode ds c cn k grants) = Grantee"
  "n_central (recipientNode ds c cn k grants) = None"
  by (simp_all add: recipientNode_def Let_def)

lemma link_simps [simp]:
  "l_source (funderLink target grant) = r_funderEIN grant"
  "l_target (funderLink target grant) = target"
  "l_source (hlfLink target ya) = hlfId"
  "l_target (hlfLink target ya) = target"
  "l_source (centralLink c target g) = c"
  "l_target (centralLink c target g) = target"
  by (simp_all add: funderLink_def hlfLink_def centralLink_def)

lemma appendsPlain_refl: "appendsPlain ns ns"
  by (simp add: appendsPlain_def)

lemma appendsPlain_trans: "appendsPlain a b \<Longrightarrow> appendsPlain b c \<Longrightarrow> appendsPlain a c"
  by (auto simp: appendsPlain_def)

lemma pushNode_appends: "n_central node = None \<Longrightarrow> appendsPlain (fst st) (fst (pushNode node st))"
  by (cases st) (simp add: pushNode_def appendsPlain_def)

lemma addNodeOnce_appends: "n_central node = None \<Longrightarrow> appendsPlain (fst st) (fst (addNodeOnce node st))"
  by (cases st) (simp add: addNodeOnce_def pushNode_def appendsPlain_def)

lemma fst_pushLinks: "fst (pushLinks new st) = fst st"
  by (cases st) (simp add: pushLinks_def)

lemma otherFunderStep_appends: "appendsPlain (fst st) (fst (otherFunderStep skip fs target grant st))"
  by (simp add: otherFunderStep_def fst_pushLinks appendsPlain_refl addNodeOnce_appends)

lemma addOtherFunders_appends: "appendsPlain (fst st) (fst (addOtherFunders skip fs target grants st))"
proof (induction grants arbitrary: st)
  case Nil
  show ?case by (simp add: appendsPlain_refl)
next
  case (Cons g gs)
  from appendsPlain_trans [OF otherFunderStep_appends Cons.IH] show ?case by simp
qed

lemma unmatchedStep_appends: "appendsPlain (fst st) (fst (unmatchedStep toLowerCase ug entry st))"
  by (cases entry) (simp add: unmatchedStep_def fst_pushLinks pushNode_appends)

lemma unmatchedLoop_appends: "appendsPlain (fst st) (fst (unmatchedLoop toLowerCase ug groups st))"
proof (induction groups arbitrary: st)
  case Nil
  show ?case by (simp add: appendsPlain_refl)
next
  case (Cons e es)
  from appendsPlain_trans [OF unmatchedStep_appends Cons.IH] show ?case by simp
qed

lemma matchedStep_appends: "appendsPlain (fst st) (fst (matchedStep toLowerCase names byOrg fs entry st))"
proof (cases entry)
  case (Pair orgEIN org)
  show ?thesis
  proof (cases "hlfName toLowerCase (o_name org) \<in> set names")
    case False
    then show ?thesis by (simp add: Pair matchedStep_def appendsPlain_refl)
  next
    case True
    let ?hg = "case map_of byOrg (hlfName toLowerCase (o_name org)) of None \<Rightarrow> [] | Some l \<Rightarrow> l"
    let ?st1 = "pushLinks (map (hlfLink orgEIN) ?hg) (addNodeOnce (matchedNode orgEIN org ?hg) st)"
    have "appendsPlain (fst st) (fst ?st1)"
      by (simp add: fst_pushLinks addNodeOnce_appends)
    from appendsPlain_trans [OF this addOtherFunders_appends] True show ?thesis
      by (simp add: Pair matchedStep_def Let_def)
  qed
qed

lemma matchedLoop_appends: "appendsPlain (fst st) (fst (matchedLoop toLowerCase names byOrg fs entries st))"
proof (induction entries arbitrary: st)
  case Nil
  show ?case by (simp add: appendsPlain_refl)
next
  case (Cons e es)
  from appendsPlain_trans [OF matchedStep_appends Cons.IH] show ?case by simp
qed

lemma recipientStep_appends: "appendsPlain (fst st) (fst (recipientStep ds c cn entry st))"
proof (cases entry)
  case (Pair k gs)
  let ?st1 = "pushLinks (map (centralLink c k) gs) (addNodeOnce (recipientNode ds c cn k gs) st)"
  have a: "appendsPlain (fst st) (fst ?st1)"
    by (simp add: fst_pushLinks addNodeOnce_appends)
  show ?thesis
  proof (cases "map_of (ds_organizations ds) k")
    case None
    with a show ?thesis by (simp add: Pair recipientStep_def Let_def)
  next
    case (Some org)
    from appendsPlain_trans [OF a addOtherFunders_appends] Some show ?thesis
      by (simp add: Pair recipientStep_def Let_def)
  qed
qed

lemma recipientsLoop_appends: "appendsPlain (fst st) (fst (recipientsLoop ds c cn groups st))"
proof (induction groups arbitrary: st)
  case Nil
  show ?case by (simp add: appendsPlain_refl)
next
  case (Cons e es)
  from appendsPlain_trans [OF recipientStep_appends Cons.IH] show ?case by simp
qed

lemma oneCentral_from_appends:
  "n_central cnode = Some True \<Longrightarrow> appendsPlain [cnode] (ng_nodes g) \<Longrightarrow>
     oneCentral g \<and> length (filter (\<lambda>n. n_central n = Some True) (ng_nodes g)) = 1"
  by (auto simp: appendsPlain_def oneCentral_def list_all_iff filter_empty_conv)

lemma buildHLFNetworkFrom_appends: "appendsPlain [hlfNode] (ng_nodes (buildHLFNetworkFrom toLowerCase gs ds))"
proof -
  have a: "appendsPlain [hlfNode] (fst (pushNode hlfNode ([], [], [])))"
    by (simp add: pushNode_def appendsPlain_refl)
  from appendsPlain_trans [OF appendsPlain_trans [OF a unmatchedLoop_appends] matchedLoop_appends]
  show ?thesis
    by (simp add: buildHLFNetworkFrom_def Let_def)
qed

lemma buildCustomEINNetwork_appends:
  "buildCustomEINNetwork toLowerCase toUpperCase ds c = Inr g \<Longrightarrow>
     \<exists>f. map_of (ds_foundations ds) c = Some f \<and> appendsPlain [centralNode c f] (ng_nodes g)"
proof -
  assume b: "buildCustomEINNetwork toLowerCase toUpperCase ds c = Inr g"
  then obtain f where f: "map_of (ds_foundations ds) c = Some f"
    by (auto simp: buildCustomEINNetwork_def split: option.splits)
  have a: "appendsPlain [centralNode c f] (fst (pushNode (centralNode c f) ([], [], [])))"
    by (simp add: pushNode_def appendsPlain_refl)
  from appendsPlain_trans [OF a recipientsLoop_appends] b f
  show ?thesis
    by (auto simp: buildCustomEINNetwork_def Let_def)
qed

text \<open>
  C1. In every network a builder returns, the first node is the central node, marked
  \<open>central = true\<close>, and no other node carries the mark: exactly one node is central.
  This holds for \<open>buildHLFNetwork\<close> on any curated list and any dataset, and for
  \<open>buildCustomEINNetwork\<close> whenever it returns (it raises when the central EIN is not a
  foundation of the dataset).
\<close>

theorem exactly_one_central_node:
  "(oneCentral (buildHLFNetworkFrom toLowerCase allHLFGrantees dataset) \<and>
    length (filter (\<lambda>n. n_central n = Some True) (ng_nodes (buildHLFNetworkFrom toLowerCase allHLFGrantees dataset))) = 1)
   \<and> (\<forall>g. buildHLFNetwork toLowerCase readFile dataset = Inr g \<longrightarrow>
          oneCentral g \<and> length (filter (\<lambda>n. n_central n = Some True) (ng_nodes g)) = 1)
   \<and> (\<forall>g. buildCustomEINNetwork toLowerCase toUpperCase dataset centralEIN = Inr g \<longrightarrow>
          oneCentral g \<and> length (filter (\<lambda>n. n_central n = Some True) (ng_nodes g)) = 1)"
proof -
  have c: "n_central hlfNode = Some True" by (simp add: hlfNode_def)
  have hlf: "oneCentral (buildHLFNetworkFrom toLowerCase gs dataset) \<and>
    length (filter (\<lambda>n. n_central n = Some True) (ng_nodes (buildHLFNetworkFrom toLowerCase gs dataset))) = 1" for gs
    using oneCentral_from_appends [OF c buildHLFNetworkFrom_appends] .
  have custom: "oneCentral g \<and> length (filter (\<lambda>n. n_central n = Some True) (ng_nodes g)) = 1"
    if "buildCustomEINNetwork toLowerCase toUpperCase dataset centralEIN = Inr g" for g
  proof -
    from buildCustomEINNetwork_appends [OF that] obtain f
      where "appendsPlain [centralNode centralEIN f] (ng_nodes g)" by blast
    moreover have "n_central (centralNode centralEIN f) = Some True" by (simp add: centralNode_def)
    ultimately show ?thesis using oneCentral_from_appends by blast
  qed
  show ?thesis
    using hlf custom by (auto simp: buildHLFNetwork_def split: sum.splits)
qed

lemma fromCentral_mono: "fromCentral links c t \<Longrightarrow> fromCentral (links @ extra) c t"
  by (auto simp: fromCentral_def list_ex_iff)

lemma viaGrantee_mono: "viaGrantee links c t \<Longrightarrow> viaGrantee (links @ extra) c t"
  by (auto simp: viaGrantee_def list_ex_iff dest: fromCentral_mono)

lemma reached_mono: "reached links c n \<Longrightarrow> reached (links @ extra) c n"
  by (auto simp: reached_def fromCentral_mono viaGrantee_mono split: NodeType.splits)

lemma stateInvI:
  assumes "set added = n_id ` set nodes" "c \<in> set added"
    and "\<And>n. n \<in> set nodes \<Longrightarrow> n_central n = Some True \<or> reached links c n"
    and "\<And>l. l \<in> set links \<Longrightarrow> l_source l \<in> set added \<and> l_target l \<in> set added"
  shows "stateInv c (nodes, links, added)"
  using assms by (simp add: stateInv_def list_all_iff)

lemma stateInvD:
  assumes "stateInv c (nodes, links, added)"
  shows "set added = n_id ` set nodes" "c \<in> set added"
    and "\<And>n. n \<in> set nodes \<Longrightarrow> n_central n = Some True \<or> reached links c n"
    and "\<And>l. l \<in> set links \<Longrightarrow> l_source l \<in> set added \<and> l_target l \<in> set added"
  using assms by (auto simp: stateInv_def list_all_iff)

lemma stateInv_links:
  assumes inv: "stateInv c (nodes, links, added)"
    and new: "\<And>l. l \<in> set new \<Longrightarrow> l_source l \<in> set added \<and> l_target l \<in> set added"
  shows "stateInv c (nodes, links @ new, added)"
proof (rule stateInvI)
  show "set added = n_id ` set nodes" "c \<in> set added"
    using stateInvD(1,2) [OF inv] .
  show "n_central n = Some True \<or> reached (links @ new) c n" if "n \<in> set nodes" for n
    using stateInvD(3) [OF inv that] reached_mono by blast
  show "l_source l \<in> set added \<and> l_target l \<in> set added" if "l \<in> set (links @ new)" for l
    using that stateInvD(4) [OF inv] new by auto
qed

lemma stateInv_node_links:
  assumes inv: "stateInv c (nodes, links, added)"
    and r: "reached (links @ new) c node"
    and new: "\<And>l. l \<in> set new \<Longrightarrow>
        l_source l \<in> insert (n_id node) (set added) \<and> l_target l \<in> insert (n_id node) (set added)"
  shows "stateInv c (nodes @ [node], links @ new, added @ [n_id node])"
proof (rule stateInvI)
  show "set (added @ [n_id node]) = n_id ` set (nodes @ [node])"
    using stateInvD(1) [OF inv] by auto
  show "c \<in> set (added @ [n_id node])"
    using stateInvD(2) [OF inv] by simp
  show "n_central n = Some True \<or> reached (links @ new) c n" if "n \<in> set (nodes @ [node])" for n
  proof (cases "n = node")
    case True
    with r show ?thesis by simp
  next
    case False
    with that have "n \<in> set nodes" by simp
    from stateInvD(3) [OF inv this] reached_mono show ?thesis by blast
  qed
  show "l_source l \<in> set (added @ [n_id node]) \<and> l_target l \<in> set (added @ [n_id node])"
    if "l \<in> set (links @ new)" for l
  proof (cases "l \<in> set links")
    case True
    from stateInvD(4) [OF inv this] show ?thesis by simp
  next
    case False
    with that have "l \<in> set new" by simp
    from new [OF this] show ?thesis by simp
  qed
qed

text \<open>One grantee: the node, if new, and at least one link from the central id to it.\<close>

lemma stateInv_grantee:
  assumes inv: "stateInv c st"
    and ty: "n_type node = Grantee"
    and ne: "new \<noteq> []"
    and new: "\<forall>l\<in>set new. l_source l = c \<and> l_target l = n_id node"
    and st1: "st1 = pushLinks new (addNodeOnce node st) \<or> st1 = pushLinks new (pushNode node st)"
  shows "stateInv c st1 \<and> n_id node \<in> set (snd (snd st1)) \<and> fromCentral (fst (snd st1)) c (n_id node)"
proof -
  obtain nodes links added where st: "st = (nodes, links, added)" by (cases st)
  note inv' = inv [unfolded st]
  from ne obtain l where "l \<in> set new" by (cases new) auto
  with new have fc: "fromCentral (links @ new) c (n_id node)"
    by (auto simp: fromCentral_def list_ex_iff)
  then have r: "reached (links @ new) c node"
    by (simp add: reached_def ty)
  have cin: "c \<in> set added" using stateInvD(2) [OF inv'] .
  consider (old) "st1 = (nodes, links @ new, added)" "n_id node \<in> set added"
    | (fresh) "st1 = (nodes @ [node], links @ new, added @ [n_id node])"
    using st1 by (auto simp: st pushLinks_def addNodeOnce_def pushNode_def split: if_splits)
  then show ?thesis
  proof cases
    case old
    have "stateInv c (nodes, links @ new, added)"
      by (rule stateInv_links [OF inv']) (use new old(2) cin in auto)
    with old fc show ?thesis by simp
  next
    case fresh
    have "stateInv c (nodes @ [node], links @ new, added @ [n_id node])"
      by (rule stateInv_node_links [OF inv' r]) (use new cin in auto)
    with fresh fc show ?thesis by simp
  qed
qed

text \<open>One other funder of a grantee that is reached from the central id.\<close>

lemma stateInv_otherFunderStep:
  assumes inv: "stateInv c st"
    and t: "target \<in> set (snd (snd st))" "fromCentral (fst (snd st)) c target"
    and st1: "st1 = otherFunderStep skip fs target grant st"
  shows "stateInv c st1 \<and> target \<in> set (snd (snd st1)) \<and> fromCentral (fst (snd st1)) c target"
proof -
  obtain nodes links added where st: "st = (nodes, links, added)" by (cases st)
  note inv' = inv [unfolded st]
  show ?thesis
  proof (cases "r_funderEIN grant = skip")
    case True
    with inv t st1 show ?thesis by (simp add: otherFunderStep_def)
  next
    case False
    let ?l = "funderLink target grant"
    let ?node = "funderNode fs grant"
    from t have tin: "target \<in> set added" and fc: "fromCentral (links @ [?l]) c target"
      by (simp_all add: st fromCentral_mono)
    from fc have "viaGrantee (links @ [?l]) c (r_funderEIN grant)"
      by (auto simp: viaGrantee_def list_ex_iff)
    then have r: "reached (links @ [?l]) c ?node"
      by (simp add: reached_def)
    consider (old) "st1 = (nodes, links @ [?l], added)" "r_funderEIN grant \<in> set added"
      | (fresh) "st1 = (nodes @ [?node], links @ [?l], added @ [n_id ?node])"
      using st1 False
      by (auto simp: st otherFunderStep_def pushLinks_def addNodeOnce_def pushNode_def split: if_splits)
    then show ?thesis
    proof cases
      case old
      have "stateInv c (nodes, links @ [?l], added)"
        by (rule stateInv_links [OF inv']) (use old(2) tin in auto)
      with old fc tin show ?thesis by simp
    next
      case fresh
      have "stateInv c (nodes @ [?node], links @ [?l], added @ [n_id ?node])"
        by (rule stateInv_node_links [OF inv' r]) (use tin in auto)
      with fresh fc tin show ?thesis by simp
    qed
  qed
qed

lemma stateInv_addOtherFunders:
  "stateInv c st \<Longrightarrow> target \<in> set (snd (snd st)) \<Longrightarrow> fromCentral (fst (snd st)) c target \<Longrightarrow>
     stateInv c (addOtherFunders skip fs target grants st)"
proof (induction grants arbitrary: st)
  case Nil
  then show ?case by simp
next
  case (Cons g gs)
  from stateInv_otherFunderStep [OF Cons.prems refl, of skip fs g]
  show ?case by (simp add: Cons.IH)
qed

lemma stateInv_unmatchedStep:
  "stateInv hlfId st \<Longrightarrow> snd entry \<noteq> [] \<Longrightarrow> stateInv hlfId (unmatchedStep toLowerCase ug entry st)"
  using stateInv_grantee [of hlfId st "unmatchedNode toLowerCase ug (fst entry) (snd entry)"
      "map (hlfLink (str ''hlf_grantee_'' @ replaceSpaces (fst entry))) (snd entry)"]
  by (cases entry) (simp add: unmatchedStep_def)

lemma stateInv_unmatchedLoop:
  "stateInv hlfId st \<Longrightarrow> \<forall>e\<in>set groups. snd e \<noteq> [] \<Longrightarrow> stateInv hlfId (unmatchedLoop toLowerCase ug groups st)"
  by (induction groups arbitrary: st) (simp_all add: stateInv_unmatchedStep)

lemma stateInv_matchedStep:
  assumes inv: "stateInv hlfId st"
    and cover: "\<forall>name\<in>set names. \<exists>gs. map_of byOrg name = Some gs \<and> gs \<noteq> []"
  shows "stateInv hlfId (matchedStep toLowerCase names byOrg fs entry st)"
proof (cases entry)
  case (Pair orgEIN org)
  show ?thesis
  proof (cases "hlfName toLowerCase (o_name org) \<in> set names")
    case False
    with inv show ?thesis by (simp add: Pair matchedStep_def)
  next
    case True
    with cover obtain gs where gs: "map_of byOrg (hlfName toLowerCase (o_name org)) = Some gs" "gs \<noteq> []"
      by blast
    let ?st1 = "pushLinks (map (hlfLink orgEIN) gs) (addNodeOnce (matchedNode orgEIN org gs) st)"
    from stateInv_grantee [OF inv, of "matchedNode orgEIN org gs" "map (hlfLink orgEIN) gs" ?st1] gs(2)
    have "stateInv hlfId ?st1 \<and> orgEIN \<in> set (snd (snd ?st1)) \<and> fromCentral (fst (snd ?st1)) hlfId orgEIN"
      by simp
    then have "stateInv hlfId (addOtherFunders HLF_EIN fs orgEIN (o_grantsReceived org) ?st1)"
      by (simp add: stateInv_addOtherFunders)
    with True gs show ?thesis by (simp add: Pair matchedStep_def Let_def)
  qed
qed

lemma stateInv_matchedLoop:
  "stateInv hlfId st \<Longrightarrow> \<forall>name\<in>set names. \<exists>gs. map_of byOrg name = Some gs \<and> gs \<noteq> [] \<Longrightarrow>
     stateInv hlfId (matchedLoop toLowerCase names byOrg fs entries st)"
  by (induction entries arbitrary: st) (simp_all add: stateInv_matchedStep)

lemma stateInv_recipientStep:
  assumes inv: "stateInv c st" and ne: "snd entry \<noteq> []"
  shows "stateInv c (recipientStep ds c cn entry st)"
proof (cases entry)
  case (Pair k gs)
  let ?st1 = "pushLinks (map (centralLink c k) gs) (addNodeOnce (recipientNode ds c cn k gs) st)"
  from stateInv_grantee [OF inv, of "recipientNode ds c cn k gs" "map (centralLink c k) gs" ?st1] ne
  have a: "stateInv c ?st1 \<and> k \<in> set (snd (snd ?st1)) \<and> fromCentral (fst (snd ?st1)) c k"
    by (simp add: Pair)
  show ?thesis
  proof (cases "map_of (ds_organizations ds) k")
    case None
    with a show ?thesis by (simp add: Pair recipientStep_def Let_def)
  next
    case (Some org)
    from a have "stateInv c (addOtherFunders c (ds_foundations ds) k (o_grantsReceived org) ?st1)"
      by (simp add: stateInv_addOtherFunders)
    with Some show ?thesis by (simp add: Pair recipientStep_def Let_def)
  qed
qed

lemma stateInv_recipientsLoop:
  "stateInv c st \<Longrightarrow> \<forall>e\<in>set groups. snd e \<noteq> [] \<Longrightarrow> stateInv c (recipientsLoop ds c cn groups st)"
  by (induction groups arbitrary: st) (simp_all add: stateInv_recipientStep)

text \<open>The groups are never empty, and every name that was grouped has its group.\<close>

lemma set_dict_put: "set (dict_put k v d) \<subseteq> insert (k, v) (set d)"
  by (induction d) auto

lemma groupHLFGrants_nonempty:
  "\<forall>e\<in>set byOrg. snd e \<noteq> [] \<Longrightarrow> \<forall>e\<in>set (groupHLFGrants toLowerCase gs byOrg). snd e \<noteq> []"
proof (induction gs arbitrary: byOrg)
  case Nil
  then show ?case by simp
next
  case (Cons g gs)
  let ?n = "hlfName toLowerCase (h_organization g)"
  let ?v = "(case map_of byOrg ?n of None \<Rightarrow> [] | Some l \<Rightarrow> l) @
               [\<lparr>ya_amount = h_amount g, ya_year = h_year g\<rparr>]"
  have "\<forall>e\<in>set (dict_put ?n ?v byOrg). snd e \<noteq> []"
  proof
    fix e assume "e \<in> set (dict_put ?n ?v byOrg)"
    with set_dict_put [of ?n ?v byOrg] have "e = (?n, ?v) \<or> e \<in> set byOrg" by auto
    with Cons.prems show "snd e \<noteq> []" by auto
  qed
  from Cons.IH [OF this] show ?case by (simp add: Let_def)
qed

lemma groupHLFGrants_keeps:
  "map_of byOrg name = Some l \<Longrightarrow> l \<noteq> [] \<Longrightarrow>
     \<exists>l'. map_of (groupHLFGrants toLowerCase gs byOrg) name = Some l' \<and> l' \<noteq> []"
proof (induction gs arbitrary: byOrg l)
  case Nil
  then show ?case by simp
next
  case (Cons g gs)
  let ?n = "hlfName toLowerCase (h_organization g)"
  let ?m = "dict_put ?n ((case map_of byOrg ?n of None \<Rightarrow> [] | Some l \<Rightarrow> l) @
               [\<lparr>ya_amount = h_amount g, ya_year = h_year g\<rparr>]) byOrg"
  from Cons.prems have "\<exists>l1. map_of ?m name = Some l1 \<and> l1 \<noteq> []"
    by (simp add: map_of_dict_put)
  then obtain l1 where "map_of ?m name = Some l1" "l1 \<noteq> []" by blast
  from Cons.IH [OF this] show ?case by (simp add: Let_def)
qed

lemma groupHLFGrants_covers:
  "g \<in> set gs \<Longrightarrow> \<exists>l. map_of (groupHLFGrants toLowerCase gs byOrg) (hlfName toLowerCase (h_organization g)) = Some l \<and> l \<noteq> []"
proof (induction gs arbitrary: byOrg)
  case Nil
  then show ?case by simp
next
  case (Cons a gs)
  let ?n = "hlfName toLowerCase (h_organization a)"
  let ?m = "dict_put ?n ((case map_of byOrg ?n of None \<Rightarrow> [] | Some l \<Rightarrow> l) @
               [\<lparr>ya_amount = h_amount a, ya_year = h_year a\<rparr>]) byOrg"
  show ?case
  proof (cases "g = a")
    case True
    have "\<exists>l1. map_of ?m ?n = Some l1 \<and> l1 \<noteq> []" by (simp add: map_of_dict_put)
    then obtain l1 where "map_of ?m ?n = Some l1" "l1 \<noteq> []" by blast
    from groupHLFGrants_keeps [OF this] True show ?thesis by (simp add: Let_def)
  next
    case False
    with Cons.prems have "g \<in> set gs" by simp
    from Cons.IH [OF this] show ?thesis by (simp add: Let_def)
  qed
qed

lemma groupByRecipient_nonempty:
  "\<forall>e\<in>set m. snd e \<noteq> [] \<Longrightarrow> \<forall>e\<in>set (groupByRecipient toLowerCase toUpperCase ds idx gs m). snd e \<noteq> []"
proof (induction gs arbitrary: m)
  case Nil
  then show ?case by simp
next
  case (Cons g gs)
  let ?k = "resolveRecipient toLowerCase toUpperCase ds idx g"
  let ?v = "(case map_of m ?k of None \<Rightarrow> [] | Some l \<Rightarrow> l) @ [g]"
  have "\<forall>e\<in>set (dict_put ?k ?v m). snd e \<noteq> []"
  proof
    fix e assume "e \<in> set (dict_put ?k ?v m)"
    with set_dict_put [of ?k ?v m] have "e = (?k, ?v) \<or> e \<in> set m" by auto
    with Cons.prems show "snd e \<noteq> []" by auto
  qed
  from Cons.IH [OF this] show ?case by (simp add: Let_def)
qed

lemma stateInv_start: "n_central node = Some True \<Longrightarrow> stateInv (n_id node) (pushNode node ([], [], []))"
  by (simp add: stateInv_def pushNode_def)

lemma egoGraph_of_stateInv: "stateInv c st \<Longrightarrow> egoGraph c \<lparr>ng_nodes = fst st, ng_links = fst (snd st)\<rparr>"
  by (cases st) (auto simp: stateInv_def egoGraph_def list_all_iff)

text \<open>
  C2. In every network a builder returns, every node that is not the central node is
  reached from the central id over the emitted links: a grantee node is the target of a
  link from the central id, and a funder node is the source of a link to a node that is
  itself the target of a link from the central id. Both ends of every link are nodes of
  the network.
\<close>

theorem network_is_two_layer_ego_graph:
  "egoGraph hlfId (buildHLFNetworkFrom toLowerCase allHLFGrantees dataset)
   \<and> (\<forall>g. buildHLFNetwork toLowerCase readFile dataset = Inr g \<longrightarrow> egoGraph hlfId g)
   \<and> (\<forall>g. buildCustomEINNetwork toLowerCase toUpperCase dataset centralEIN = Inr g \<longrightarrow> egoGraph centralEIN g)"
proof -
  have hlf: "egoGraph hlfId (buildHLFNetworkFrom toLowerCase gs dataset)" for gs
  proof -
    let ?ug = "filter (\<lambda>g. \<not> foundInDataset toLowerCase dataset g) gs"
    have s0: "stateInv hlfId (pushNode hlfNode ([], [], []))"
      using stateInv_start [of hlfNode] by (simp add: hlfNode_def)
    have "\<forall>e\<in>set (groupHLFGrants toLowerCase ?ug []). snd e \<noteq> []"
      by (rule groupHLFGrants_nonempty) simp
    with s0 have s1: "stateInv hlfId (unmatchedLoop toLowerCase ?ug (groupHLFGrants toLowerCase ?ug []) (pushNode hlfNode ([], [], [])))"
      by (rule stateInv_unmatchedLoop)
    have "\<forall>name\<in>set (map (\<lambda>g. hlfName toLowerCase (h_organization g)) gs).
            \<exists>l. map_of (groupHLFGrants toLowerCase gs []) name = Some l \<and> l \<noteq> []"
      using groupHLFGrants_covers by auto
    with s1 have "stateInv hlfId
        (matchedLoop toLowerCase (map (\<lambda>g. hlfName toLowerCase (h_organization g)) gs) (groupHLFGrants toLowerCase gs [])
           (ds_foundations dataset) (objectEntries (ds_organizations dataset))
           (unmatchedLoop toLowerCase ?ug (groupHLFGrants toLowerCase ?ug []) (pushNode hlfNode ([], [], []))))"
      by (rule stateInv_matchedLoop)
    from egoGraph_of_stateInv [OF this] show ?thesis
      by (simp add: buildHLFNetworkFrom_def Let_def)
  qed
  have custom: "egoGraph centralEIN g" if b: "buildCustomEINNetwork toLowerCase toUpperCase dataset centralEIN = Inr g" for g
  proof -
    from b obtain f where f: "map_of (ds_foundations dataset) centralEIN = Some f"
      by (auto simp: buildCustomEINNetwork_def split: option.splits)
    have s0: "stateInv centralEIN (pushNode (centralNode centralEIN f) ([], [], []))"
      using stateInv_start [of "centralNode centralEIN f"] by (simp add: centralNode_def)
    have "\<forall>e\<in>set (groupByRecipient toLowerCase toUpperCase dataset (buildNameToEINIndex toLowerCase dataset) (f_grantsGiven f) []). snd e \<noteq> []"
      by (rule groupByRecipient_nonempty) simp
    with s0 have "stateInv centralEIN
        (recipientsLoop dataset centralEIN (f_name f)
           (groupByRecipient toLowerCase toUpperCase dataset (buildNameToEINIndex toLowerCase dataset) (f_grantsGiven f) [])
           (pushNode (centralNode centralEIN f) ([], [], [])))"
      by (rule stateInv_recipientsLoop)
    from egoGraph_of_stateInv [OF this] b f show ?thesis
      by (simp add: buildCustomEINNetwork_def Let_def)
  qed
  show ?thesis
    using hlf custom by (auto simp: buildHLFNetwork_def split: sum.splits)
qed

subsection \<open>buildCustomEINNetwork: recipients matched by name\<close>

lemma resolveRecipient_single:
  "lacksEIN (g_recipientEIN grant) \<Longrightarrow>
   map_of nameIndex (normalizeOrgName toLowerCase (g_recipientName grant)) = Some [k] \<Longrightarrow>
     resolveRecipient toLowerCase toUpperCase dataset nameIndex grant = k"
  by (simp add: resolveRecipient_def Let_def)

lemma groupByRecipient_keeps:
  "map_of m k = Some l \<Longrightarrow> g \<in> set l \<Longrightarrow>
     \<exists>l'. map_of (groupByRecipient toLowerCase toUpperCase ds idx gs m) k = Some l' \<and> g \<in> set l'"
proof (induction gs arbitrary: m l)
  case Nil
  then show ?case by simp
next
  case (Cons a gs)
  let ?k = "resolveRecipient toLowerCase toUpperCase ds idx a"
  let ?m = "dict_put ?k ((case map_of m ?k of None \<Rightarrow> [] | Some l \<Rightarrow> l) @ [a]) m"
  have "\<exists>l1. map_of ?m k = Some l1 \<and> g \<in> set l1"
  proof (cases "k = ?k")
    case True
    with Cons.prems show ?thesis by (simp add: map_of_dict_put)
  next
    case False
    with Cons.prems show ?thesis by (simp add: map_of_dict_put)
  qed
  then obtain l1 where "map_of ?m k = Some l1" "g \<in> set l1" by blast
  from Cons.IH [OF this] show ?case by (simp add: Let_def)
qed

lemma groupByRecipient_member:
  "g \<in> set gs \<Longrightarrow>
     \<exists>l. map_of (groupByRecipient toLowerCase toUpperCase ds idx gs m) (resolveRecipient toLowerCase toUpperCase ds idx g) = Some l \<and> g \<in> set l"
proof (induction gs arbitrary: m)
  case Nil
  then show ?case by simp
next
  case (Cons a gs)
  let ?k = "resolveRecipient toLowerCase toUpperCase ds idx a"
  let ?m = "dict_put ?k ((case map_of m ?k of None \<Rightarrow> [] | Some l \<Rightarrow> l) @ [a]) m"
  show ?case
  proof (cases "g = a")
    case True
    have "\<exists>l1. map_of ?m ?k = Some l1 \<and> a \<in> set l1" by (simp add: map_of_dict_put)
    then obtain l1 where "map_of ?m ?k = Some l1" "a \<in> set l1" by blast
    from groupByRecipient_keeps [OF this] True show ?thesis by (simp add: Let_def)
  next
    case False
    with Cons.prems have "g \<in> set gs" by simp
    from Cons.IH [OF this] show ?thesis by (simp add: Let_def)
  qed
qed

lemma keyedByRecipient_lookup:
  assumes p: "keyedByRecipient toLowerCase toUpperCase ds idx m" and s: "map_of m k = Some l" and g: "g \<in> set l"
  shows "resolveRecipient toLowerCase toUpperCase ds idx g = k"
proof -
  from s have "(k, l) \<in> set m" by (rule map_of_SomeD)
  with p g show ?thesis
    unfolding keyedByRecipient_def list_all_iff by force
qed

lemma keyedByRecipient_step:
  assumes p: "keyedByRecipient toLowerCase toUpperCase ds idx m"
  shows "keyedByRecipient toLowerCase toUpperCase ds idx
           (dict_put (resolveRecipient toLowerCase toUpperCase ds idx a)
              ((case map_of m (resolveRecipient toLowerCase toUpperCase ds idx a) of None \<Rightarrow> [] | Some l \<Rightarrow> l) @ [a]) m)"
proof -
  define k where "k = resolveRecipient toLowerCase toUpperCase ds idx a"
  define old where "old = (case map_of m k of None \<Rightarrow> [] | Some l \<Rightarrow> l)"
  have o: "resolveRecipient toLowerCase toUpperCase ds idx g = k" if "g \<in> set old" for g
  proof (cases "map_of m k")
    case None
    with that show ?thesis by (simp add: old_def)
  next
    case (Some l)
    with that have "g \<in> set l" by (simp add: old_def)
    from keyedByRecipient_lookup [OF p Some this] show ?thesis .
  qed
  have "list_all (\<lambda>g. resolveRecipient toLowerCase toUpperCase ds idx g = fst e) (snd e)" if "e \<in> set (dict_put k (old @ [a]) m)" for e
  proof -
    from that set_dict_put [of k "old @ [a]" m] have "e = (k, old @ [a]) \<or> e \<in> set m" by auto
    then show ?thesis
    proof
      assume "e = (k, old @ [a])"
      then show ?thesis using o by (simp add: list_all_iff k_def)
    next
      assume "e \<in> set m"
      with p show ?thesis unfolding keyedByRecipient_def list_all_iff by blast
    qed
  qed
  then show ?thesis
    unfolding keyedByRecipient_def k_def old_def list_all_iff by blast
qed

lemma groupByRecipient_keys:
  "keyedByRecipient toLowerCase toUpperCase ds idx m \<Longrightarrow> keyedByRecipient toLowerCase toUpperCase ds idx (groupByRecipient toLowerCase toUpperCase ds idx gs m)"
proof (induction gs arbitrary: m)
  case Nil
  then show ?case by simp
next
  case (Cons a gs)
  from Cons.IH [OF keyedByRecipient_step [OF Cons.prems, of a]] show ?case
    by (simp add: Let_def)
qed

lemma links_pushLinks: "fst (snd (pushLinks new st)) = fst (snd st) @ new"
  by (cases st) (simp add: pushLinks_def)

lemma links_addNodeOnce: "fst (snd (addNodeOnce node st)) = fst (snd st)"
  by (cases st) (simp add: addNodeOnce_def pushNode_def)

lemma links_otherFunderStep: "set (fst (snd st)) \<subseteq> set (fst (snd (otherFunderStep skip fs target grant st)))"
  by (simp add: otherFunderStep_def links_pushLinks links_addNodeOnce subset_insertI)

lemma links_addOtherFunders: "set (fst (snd st)) \<subseteq> set (fst (snd (addOtherFunders skip fs target grants st)))"
proof (induction grants arbitrary: st)
  case Nil
  show ?case by simp
next
  case (Cons g gs)
  have "set (fst (snd st)) \<subseteq> set (fst (snd (otherFunderStep skip fs target g st)))"
    by (rule links_otherFunderStep)
  also have "\<dots> \<subseteq> set (fst (snd (addOtherFunders skip fs target gs (otherFunderStep skip fs target g st))))"
    by (rule Cons.IH)
  finally show ?case by simp
qed

lemma links_recipientStep:
  "set (fst (snd st)) \<union> centralLink c (fst entry) ` set (snd entry)
     \<subseteq> set (fst (snd (recipientStep ds c cn entry st)))"
proof (cases entry)
  case (Pair k gs)
  let ?st1 = "pushLinks (map (centralLink c k) gs) (addNodeOnce (recipientNode ds c cn k gs) st)"
  have a: "set (fst (snd st)) \<union> centralLink c k ` set gs \<subseteq> set (fst (snd ?st1))"
    by (simp add: links_pushLinks links_addNodeOnce)
  show ?thesis
  proof (cases "map_of (ds_organizations ds) k")
    case None
    with a show ?thesis by (simp add: Pair recipientStep_def Let_def)
  next
    case (Some org)
    note a
    also have "set (fst (snd ?st1))
        \<subseteq> set (fst (snd (addOtherFunders c (ds_foundations ds) k (o_grantsReceived org) ?st1)))"
      by (rule links_addOtherFunders)
    finally show ?thesis using Some by (simp add: Pair recipientStep_def Let_def)
  qed
qed

lemma links_recipientsLoop:
  "set (fst (snd st)) \<subseteq> set (fst (snd (recipientsLoop ds c cn groups st)))"
proof (induction groups arbitrary: st)
  case Nil
  show ?case by simp
next
  case (Cons e es)
  have "set (fst (snd st)) \<subseteq> set (fst (snd (recipientStep ds c cn e st)))"
    using links_recipientStep [of st c e ds cn] by simp
  also have "\<dots> \<subseteq> set (fst (snd (recipientsLoop ds c cn es (recipientStep ds c cn e st))))"
    by (rule Cons.IH)
  finally show ?case by simp
qed

lemma recipientsLoop_emits:
  "e \<in> set groups \<Longrightarrow> g \<in> set (snd e) \<Longrightarrow>
     centralLink c (fst e) g \<in> set (fst (snd (recipientsLoop ds c cn groups st)))"
proof (induction groups arbitrary: st)
  case Nil
  then show ?case by simp
next
  case (Cons a es)
  show ?case
  proof (cases "e = a")
    case True
    with Cons.prems(2) links_recipientStep [of st c a ds cn]
    have "centralLink c (fst e) g \<in> set (fst (snd (recipientStep ds c cn a st)))" by auto
    with links_recipientsLoop [of "recipientStep ds c cn a st" ds c cn es] show ?thesis
      by auto
  next
    case False
    with Cons.prems have "e \<in> set es" by simp
    from Cons.IH [OF this Cons.prems(2)] show ?thesis by simp
  qed
qed

text \<open>
  C7 (amended). Let a grant of the central foundation lack a usable recipient EIN, and
  let the name index map its normalized recipient name to exactly one key \<open>k\<close>. Then the
  builder returns a network, the link emitted for that grant (same amount and year) has
  the target \<open>k\<close>, the grant is filed under no other recipient, and \<open>k\<close> is the key of an
  organization of the dataset. When \<open>k\<close> is not itself a placeholder key (it does not
  start with \<open>no_ein_\<close>), the target differs from the placeholder id the builder would
  mint for the name.
\<close>

theorem single_name_match_targets_matched_key:
  assumes f: "map_of (ds_foundations dataset) centralEIN = Some centralFoundation"
    and g: "grant \<in> set (f_grantsGiven centralFoundation)"
    and noEIN: "lacksEIN (g_recipientEIN grant)"
    and one: "map_of (buildNameToEINIndex toLowerCase dataset) (normalizeOrgName toLowerCase (g_recipientName grant)) = Some [k]"
  shows "\<exists>network. buildCustomEINNetwork toLowerCase toUpperCase dataset centralEIN = Inr network
           \<and> centralLink centralEIN k grant \<in> set (ng_links network)
           \<and> resolveRecipient toLowerCase toUpperCase dataset (buildNameToEINIndex toLowerCase dataset) grant = k
           \<and> (\<forall>e\<in>set (groupByRecipient toLowerCase toUpperCase dataset (buildNameToEINIndex toLowerCase dataset)
                          (f_grantsGiven centralFoundation) []).
                  grant \<in> set (snd e) \<longrightarrow> fst e = k)
           \<and> k \<in> fst ` set (ds_organizations dataset)
           \<and> (\<not> startsWith k (str ''no_ein_'') \<longrightarrow>
                  k \<noteq> str ''no_ein_'' @ normalizeOrgName toLowerCase (g_recipientName grant))"
proof -
  let ?idx = "buildNameToEINIndex toLowerCase dataset"
  let ?groups = "groupByRecipient toLowerCase toUpperCase dataset ?idx (f_grantsGiven centralFoundation) []"
  have r: "resolveRecipient toLowerCase toUpperCase dataset ?idx grant = k"
    using noEIN one by (rule resolveRecipient_single)
  from groupByRecipient_member [OF g, of toLowerCase toUpperCase dataset ?idx "[]"] r obtain l
    where l: "map_of ?groups k = Some l" "grant \<in> set l" by auto
  then have "(k, l) \<in> set ?groups" by (simp add: map_of_SomeD)
  from recipientsLoop_emits [OF this, of grant centralEIN dataset "f_name centralFoundation"
         "pushNode (centralNode centralEIN centralFoundation) ([], [], [])"] l(2)
  have link: "centralLink centralEIN k grant \<in> set (fst (snd
      (recipientsLoop dataset centralEIN (f_name centralFoundation) ?groups
         (pushNode (centralNode centralEIN centralFoundation) ([], [], [])))))"
    by simp
  have keys: "keyedByRecipient toLowerCase toUpperCase dataset ?idx ?groups"
    by (rule groupByRecipient_keys) (simp add: keyedByRecipient_def)
  have kin: "k \<in> fst ` set (ds_organizations dataset)"
    using buildNameToEINIndex_elems [OF one, of k] by simp
  have minted: "\<not> startsWith k (str ''no_ein_'') \<longrightarrow> k \<noteq> str ''no_ein_'' @ normalizeOrgName toLowerCase (g_recipientName grant)"
    by (auto simp: startsWith_def)
  let ?st = "recipientsLoop dataset centralEIN (f_name centralFoundation) ?groups
         (pushNode (centralNode centralEIN centralFoundation) ([], [], []))"
  have b: "buildCustomEINNetwork toLowerCase toUpperCase dataset centralEIN = Inr \<lparr>ng_nodes = fst ?st, ng_links = fst (snd ?st)\<rparr>"
    by (simp add: buildCustomEINNetwork_def f Let_def)
  have only: "\<forall>e\<in>set ?groups. grant \<in> set (snd e) \<longrightarrow> fst e = k"
  proof (intro ballI impI)
    fix e assume "e \<in> set ?groups" "grant \<in> set (snd e)"
    with keys have "resolveRecipient toLowerCase toUpperCase dataset ?idx grant = fst e"
      unfolding keyedByRecipient_def list_all_iff by blast
    with r show "fst e = k" by simp
  qed
  show ?thesis
  proof (intro exI conjI)
    show "buildCustomEINNetwork toLowerCase toUpperCase dataset centralEIN = Inr \<lparr>ng_nodes = fst ?st, ng_links = fst (snd ?st)\<rparr>"
      by (rule b)
    show "centralLink centralEIN k grant \<in> set (ng_links \<lparr>ng_nodes = fst ?st, ng_links = fst (snd ?st)\<rparr>)"
      using link by simp
  qed (rule r only kin minted)+
qed

subsection \<open>Evaluated examples\<close>

lemmas normalize_defs = normalizeOrgName_def asciiLower_def matchStopWord_def word_boundary_def
  is_word_char_def stopWords_def startsWith_def trim_def is_upper_def is_lower_def is_digit_def
  is_space_def

lemma normalize_Acme_Inc: "normalizeOrgName asciiLower (str ''Acme Inc'') = str ''acme''"
  by (simp add: normalize_defs)

lemma normalize_ACME: "normalizeOrgName asciiLower (str ''ACME'') = str ''acme''"
  by (simp add: normalize_defs)

lemmas normalize_simps = normalize_Acme_Inc [simplified] normalize_ACME [simplified]

text \<open>
  White space beyond ASCII, and the rounding of \<open>parseFloat\<close>. A no-break space
  (U+00A0) separates two words of an organization, so the row \<open>Tara Smith\<close> written
  with it is kept at 5,000 dollars; it is skipped in front of an amount, so the grant entry
  with the amount \<open>7\<close> behind it is retained; \<open>1e-400\<close> is read as 0, so the grant
  entry that carries it is dropped; and \<open>10000.0000000000001\<close> is read as the double
  10000, so the single-name row that carries it is dropped.
\<close>

lemmas amount_defs = parseAmount_def parseFloat_def parseUnsigned_def exponent_part_def
  scale10_def digits_value_def is_digit_def is_space_def num_truthy_def double_defs

lemmas row_defs = keepRow_def rowOrganization_def rowAmount_def cell_truthy_def decimal.simps
  trim_def

lemma keepRow_no_break_space:
  "keepRow 2023 [(str ''Organization'', CellStr (str ''Tara'' @ [0xA0] @ str ''Smith'')),
                 (str ''2023 Amount'', CellNum (Num 5000))] = Inr True"
  by (simp add: row_defs amount_defs)

lemma parseFloat_no_break_space: "parseFloat ([0xA0] @ str ''7'') = Num 7"
  by (simp add: amount_defs)

lemma parseFloat_rounds: "parseFloat (str ''10000.0000000000001'') = Num 10000"
  by (simp add: amount_defs)

lemma parseFloat_underflow: "parseFloat (str ''1e-400'') = Num 0"
proof -
  have "(2::real) ^ 1075 \<le> 10 ^ 400" by simp
  then have "(1 / 10 ^ 400 :: real) \<le> 2 powi (- 1075)"
    by (simp add: power_int_minus field_simps)
  then have "toDouble (1 / 10 ^ 400) = Num 0"
    by (intro toDouble_underflow) auto
  then show ?thesis
    by (simp add: parseFloat_def parseUnsigned_def exponent_part_def scale10_def digits_value_def
        is_digit_def is_space_def)
qed

lemma grantsLoop_underflow:
  "grantsLoop taxYear
     [Elem [(str ''RecipientPersonNm'', [Text (str ''Eve'')]), (str ''Amt'', [Text (str ''1e-400'')])]] []
   = []"
  by (simp add: xml_defs parseFloat_underflow [simplified])

lemma grantsLoop_no_break_space:
  "map pg_amount (grantsLoop taxYear
     [Elem [(str ''RecipientPersonNm'', [Text (str ''Eve'')]),
            (str ''Amt'', [Text ([0xA0] @ str ''7'')])]] [])
   = [Num 7]"
  by (simp add: xml_defs parseFloat_no_break_space [simplified])

lemma keepRow_rounded_amount:
  "keepRow 2023 [(str ''Organization'', CellStr (str ''Tara'')),
                 (str ''2023 Amount'', CellStr (str ''10000.0000000000001''))] = Inr False"
  by (simp add: row_defs amount_defs)

lemmas entries_defs = objectKeys_def objectEntries_def is_array_index_def is_digit_def

lemma example_dataset_built: "buildBidirectionalDataset asciiLower (str ''t'') example_records = example_dataset"
  by (simp add: buildBidirectionalDataset_def example_records_def example_dataset_def Let_def
      recipientKey_def startsWith_def normalize_simps entries_defs)

lemma example_index: "buildNameToEINIndex asciiLower example_dataset = [(str ''acme'', [str ''no_ein_acme'', str ''E1''])]"
  by (simp add: buildNameToEINIndex_def example_dataset_def entries_defs Let_def
      normalize_simps)

lemma example_consolidated: "consolidatePlaceholders asciiLower example_dataset = Inr (consolidated_dataset, 1)"
  unfolding consolidatePlaceholders_def example_index Let_def
  by (simp add: example_dataset_def consolidated_dataset_def entries_defs startsWith_def
      consolidateStep_def normalize_simps dict_delete_def)

lemma placeholder_dataset_built:
  "buildBidirectionalDataset asciiLower (str ''t'')
     [\<lparr>fr_funderEIN = Some (str ''F1''), fr_funderName = str ''Fone'', fr_grants = [acme_grant], fr_metadata = None\<rparr>]
   = placeholder_dataset"
  by (simp add: buildBidirectionalDataset_def placeholder_dataset_def acme_grant_def Let_def
      recipientKey_def startsWith_def normalize_simps entries_defs)

lemma placeholder_index: "buildNameToEINIndex asciiLower placeholder_dataset = [(str ''acme'', [str ''no_ein_acme''])]"
  by (simp add: buildNameToEINIndex_def placeholder_dataset_def entries_defs Let_def normalize_simps)

lemma consolidated_index: "buildNameToEINIndex asciiLower consolidated_dataset = [(str ''acme'', [str ''E1''])]"
  by (simp add: buildNameToEINIndex_def consolidated_dataset_def entries_defs Let_def normalize_simps)

lemmas builder_defs = pushNode_def addNodeOnce_def pushLinks_def recipientStep_def recipientNode_def
  centralNode_def centralLink_def otherFunderStep_def funderNode_def funderLink_def sumAmounts_def
  double_defs

lemma placeholder_network_built: "buildCustomEINNetwork asciiLower asciiUpper placeholder_dataset (str ''F1'') = Inr placeholder_network"
  unfolding buildCustomEINNetwork_def placeholder_index
  by (simp add: placeholder_dataset_def placeholder_network_def acme_grant_def Let_def
      resolveRecipient_def lacksEIN_def normalize_simps builder_defs)

text \<open>
  C7 (as stated, refuted). The claim says the target is a real id and not a minted
  placeholder. The index holds every organization, placeholder entries included. In the
  dataset built from one filing whose only grant has no recipient EIN, the index maps the
  normalized name to exactly one key, the placeholder key of that recipient, and the link
  targets it: the target is the very id the builder mints when there is no match.
\<close>

theorem single_name_match_placeholder_counterexample:
  "lacksEIN (g_recipientEIN acme_grant)
   \<and> map_of (buildNameToEINIndex asciiLower placeholder_dataset) (normalizeOrgName asciiLower (g_recipientName acme_grant))
       = Some [str ''no_ein_acme'']
   \<and> buildCustomEINNetwork asciiLower asciiUpper placeholder_dataset (str ''F1'') = Inr placeholder_network
   \<and> map l_target (ng_links placeholder_network) = [str ''no_ein_acme'']
   \<and> str ''no_ein_acme'' = str ''no_ein_'' @ normalizeOrgName asciiLower (g_recipientName acme_grant)
   \<and> startsWith (str ''no_ein_acme'') (str ''no_ein_'')"
  by (simp add: placeholder_index placeholder_network_built [simplified] acme_grant_def
      normalize_simps lacksEIN_def placeholder_network_def startsWith_def)

theorem single_name_match_targets_matched_key_witness:
  "map_of (ds_foundations consolidated_dataset) (str ''F1'')
     = Some \<lparr>f_ein = str ''F1'', f_name = str ''Fone'', f_grantsGiven = [acme_grant], f_metadata = None\<rparr>
   \<and> lacksEIN (g_recipientEIN acme_grant)
   \<and> map_of (buildNameToEINIndex asciiLower consolidated_dataset) (normalizeOrgName asciiLower (g_recipientName acme_grant))
       = Some [str ''E1'']
   \<and> (\<exists>network. buildCustomEINNetwork asciiLower asciiUpper consolidated_dataset (str ''F1'') = Inr network
          \<and> centralLink (str ''F1'') (str ''E1'') acme_grant \<in> set (ng_links network))
   \<and> resolveRecipient asciiLower asciiUpper consolidated_dataset (buildNameToEINIndex asciiLower consolidated_dataset) acme_grant = str ''E1''
   \<and> str ''E1'' \<noteq> str ''no_ein_'' @ normalizeOrgName asciiLower (g_recipientName acme_grant)"
proof -
  let ?f = "\<lparr>f_ein = str ''F1'', f_name = str ''Fone'', f_grantsGiven = [acme_grant], f_metadata = None\<rparr>"
  have f: "map_of (ds_foundations consolidated_dataset) (str ''F1'') = Some ?f"
    by (simp add: consolidated_dataset_def example_dataset_def acme_grant_def)
  have g: "acme_grant \<in> set (f_grantsGiven ?f)" by simp
  have noEIN: "lacksEIN (g_recipientEIN acme_grant)"
    by (simp add: lacksEIN_def acme_grant_def)
  have one: "map_of (buildNameToEINIndex asciiLower consolidated_dataset) (normalizeOrgName asciiLower (g_recipientName acme_grant))
       = Some [str ''E1'']"
    by (simp add: consolidated_index acme_grant_def normalize_simps)
  have real: "\<not> startsWith (str ''E1'') (str ''no_ein_'')" by (simp add: startsWith_def)
  from single_name_match_targets_matched_key [OF f g noEIN one] real f noEIN one
  show ?thesis by blast
qed

lemma consolidated_network_built:
  "buildCustomEINNetwork asciiLower asciiUpper consolidated_dataset (str ''F1'') = Inr consolidated_network"
  unfolding buildCustomEINNetwork_def consolidated_index
  by (simp add: consolidated_dataset_def example_dataset_def consolidated_network_def acme_grant_def
      Let_def resolveRecipient_def lacksEIN_def normalize_simps builder_defs)

theorem exactly_one_central_node_witness:
  "buildCustomEINNetwork asciiLower asciiUpper placeholder_dataset (str ''F1'') = Inr placeholder_network
   \<and> oneCentral placeholder_network
   \<and> length (filter (\<lambda>n. n_central n = Some True) (ng_nodes placeholder_network)) = 1
   \<and> oneCentral (buildHLFNetworkFrom asciiLower [] placeholder_dataset)"
  using exactly_one_central_node [of asciiLower "[]" placeholder_dataset "Inr []" asciiUpper "str ''F1''"]
    placeholder_network_built
  by blast

theorem network_is_two_layer_ego_graph_witness:
  "buildCustomEINNetwork asciiLower asciiUpper consolidated_dataset (str ''F1'') = Inr consolidated_network
   \<and> map n_id (ng_nodes consolidated_network) = [str ''F1'', str ''E1'', str ''F2'']
   \<and> egoGraph (str ''F1'') consolidated_network
   \<and> egoGraph hlfId (buildHLFNetworkFrom asciiLower [] consolidated_dataset)"
proof -
  have "map n_id (ng_nodes consolidated_network) = [str ''F1'', str ''E1'', str ''F2'']"
    by (simp add: consolidated_network_def)
  with network_is_two_layer_ego_graph [of asciiLower "[]" consolidated_dataset "Inr []" asciiUpper "str ''F1''"]
    consolidated_network_built
  show ?thesis by blast
qed

end
